theory Spec2Isabelle
  imports Main "HOL-Library.Word" "HOL-Library.Char_ord" "HOL-Library.List_Lexorder"
begin

section \<open>JavaScript values\<close>

text \<open>
  The program is TypeScript; its types are erased at run time and every value that
  comes from the network is whatever the JSON held. Values are therefore modelled
  untyped. A string is a list of UTF-16 code units below 256 (one \<open>char\<close> each),
  a number is an integer (the platform's codes, HTTP statuses, timestamps and HSV
  components are integers below \<open>10^21\<close>, which JavaScript prints in plain decimal).
  An object is the list of its own enumerable properties in the order in which
  \<^verbatim>\<open>Object.keys\<close> lists them. \<open>JFun\<close> is a built-in function value, named.
\<close>

datatype jsval =
    JUndefined
  | JNull
  | JBool bool
  | JNum int
  | JStr string
  | JArr "jsval list"
  | JObj "(string \<times> jsval) list"
  | JFun string

type_synonym jsobj = "(string \<times> jsval) list"

text \<open>A thrown value: an error object with its \<^verbatim>\<open>name\<close> and its \<^verbatim>\<open>message\<close>.\<close>

datatype js_error = JSError (err_name: string) (err_message: string)

text \<open>\<^verbatim>\<open>new Error(msg)\<close>\<close>

definition new_Error :: "string \<Rightarrow> js_error" where
  "new_Error msg = JSError ''Error'' msg"

text \<open>\<^verbatim>\<open>Error.prototype.toString\<close>, which a template literal applies to an error.\<close>

definition error_toString :: "js_error \<Rightarrow> string" where
  "error_toString e =
     (if err_name e = [] then err_message e
      else if err_message e = [] then err_name e
      else err_name e @ '': '' @ err_message e)"

subsection \<open>Strings\<close>

fun join :: "string \<Rightarrow> string list \<Rightarrow> string" where
  "join sep [] = []"
| "join sep [x] = x"
| "join sep (x # y # ys) = x @ sep @ join sep (y # ys)"

text \<open>\<^verbatim>\<open>s.split(c)\<close> for a one-character separator: never empty.\<close>

fun split_on :: "char \<Rightarrow> string \<Rightarrow> string list" where
  "split_on c [] = [[]]"
| "split_on c (x # xs) =
     (if x = c then [] # split_on c xs
      else (case split_on c xs of
              [] \<Rightarrow> [[x]]
            | p # ps \<Rightarrow> (x # p) # ps))"

text \<open>Decimal digits of a natural number; \<^verbatim>\<open>n.toString()\<close> for \<open>n \<ge> 0\<close>.\<close>

definition digit_char :: "nat \<Rightarrow> char" where
  "digit_char d = ''0123456789'' ! d"

function show_nat :: "nat \<Rightarrow> string" where
  "show_nat n = (if n < 10 then [digit_char n] else show_nat (n div 10) @ [digit_char (n mod 10)])"
  by pat_completeness auto
termination
  by (relation "measure id") auto

declare show_nat.simps [simp del]

definition show_int :: "int \<Rightarrow> string" where
  "show_int i = (if i < 0 then CHR ''-'' # show_nat (nat (- i)) else show_nat (nat i))"

text \<open>
  White space as \<^verbatim>\<open>String.prototype.trim\<close> and the regular expression class
  \<^verbatim>\<open>\s\<close> see it, among the code units below 256: TAB, LF, VT, FF, CR, SPACE and
  NO-BREAK SPACE.
\<close>

definition is_space :: "char \<Rightarrow> bool" where
  "is_space c = ((of_char c :: nat) \<in> {9, 10, 11, 12, 13, 32, 160})"

definition trim :: "string \<Rightarrow> string" where
  "trim s = rev (dropWhile is_space (rev (dropWhile is_space s)))"

text \<open>
  \<^verbatim>\<open>toLowerCase\<close> on code units below 256: the letters A-Z and the Latin-1
  letters U+00C0-U+00DE (but the multiplication sign U+00D7) have their lower case 32
  above. \<^verbatim>\<open>toUpperCase\<close> is modelled on the ASCII letters: the program applies it
  to a hexadecimal digest only, where a-f are the only letters.
\<close>

definition lower_char :: "char \<Rightarrow> char" where
  "lower_char c =
     (let n = (of_char c :: nat) in
      if (65 \<le> n \<and> n \<le> 90) \<or> (192 \<le> n \<and> n \<le> 222 \<and> n \<noteq> 215) then char_of (n + 32) else c)"

definition toLowerCase :: "string \<Rightarrow> string" where
  "toLowerCase s = map lower_char s"

definition upper_char :: "char \<Rightarrow> char" where
  "upper_char c =
     (let n = (of_char c :: nat) in
      if 97 \<le> n \<and> n \<le> 122 then char_of (n - 32) else c)"

definition toUpperCase :: "string \<Rightarrow> string" where
  "toUpperCase s = map upper_char s"

subsection \<open>Conversions\<close>

text \<open>\<^verbatim>\<open>ToBoolean\<close>: what \<^verbatim>\<open>!x\<close> and \<^verbatim>\<open>x || y\<close> test.\<close>

fun truthy :: "jsval \<Rightarrow> bool" where
  "truthy JUndefined = False"
| "truthy JNull = False"
| "truthy (JBool b) = b"
| "truthy (JNum n) = (n \<noteq> 0)"
| "truthy (JStr s) = (s \<noteq> [])"
| "truthy (JArr xs) = True"
| "truthy (JObj kvs) = True"
| "truthy (JFun f) = True"

text \<open>
  \<^verbatim>\<open>ToString\<close>: what string concatenation and template literals apply. An array
  joins its elements with commas, \<^verbatim>\<open>null\<close> and \<^verbatim>\<open>undefined\<close> elements as
  the empty string.
\<close>

fun to_string :: "jsval \<Rightarrow> string" where
  "to_string JUndefined = ''undefined''"
| "to_string JNull = ''null''"
| "to_string (JBool b) = (if b then ''true'' else ''false'')"
| "to_string (JNum n) = show_int n"
| "to_string (JStr s) = s"
| "to_string (JArr xs) =
     join '','' (map (\<lambda>x. if x = JUndefined \<or> x = JNull then [] else to_string x) xs)"
| "to_string (JObj kvs) = ''[object Object]''"
| "to_string (JFun f) = ''function '' @ f @ ''() { [native code] }''"

subsection \<open>Objects\<close>

text \<open>
  Own property keys are listed with the array indices first, in ascending numeric
  order, and then the other keys in the order in which they were created. An array
  index is the canonical decimal form of an integer below \<open>2^32 - 1\<close>.
\<close>

definition is_digit :: "char \<Rightarrow> bool" where
  "is_digit c = (CHR ''0'' \<le> c \<and> c \<le> CHR ''9'')"

definition index_value :: "string \<Rightarrow> nat" where
  "index_value k = foldl (\<lambda>n c. 10 * n + ((of_char c :: nat) - 48)) 0 k"

definition is_array_index :: "string \<Rightarrow> bool" where
  "is_array_index k =
     (k \<noteq> [] \<and> list_all is_digit k \<and> (k = ''0'' \<or> hd k \<noteq> CHR ''0'') \<and>
      index_value k < 4294967295)"

text \<open>\<^verbatim>\<open>o[k]\<close> for an own property, \<^verbatim>\<open>undefined\<close> when there is none.\<close>

definition obj_get :: "jsobj \<Rightarrow> string \<Rightarrow> jsval" where
  "obj_get obj k = (case map_of obj k of None \<Rightarrow> JUndefined | Some v \<Rightarrow> v)"

fun obj_update :: "string \<Rightarrow> jsval \<Rightarrow> jsobj \<Rightarrow> jsobj" where
  "obj_update k v [] = []"
| "obj_update k v ((k', v') # rest) =
     (if k' = k then (k, v) # rest else (k', v') # obj_update k v rest)"

fun insert_index :: "string \<Rightarrow> jsval \<Rightarrow> jsobj \<Rightarrow> jsobj" where
  "insert_index k v [] = [(k, v)]"
| "insert_index k v ((k', v') # rest) =
     (if is_array_index k' \<and> index_value k' < index_value k
      then (k', v') # insert_index k v rest
      else (k, v) # (k', v') # rest)"

text \<open>
  \<^verbatim>\<open>o[k] = v\<close> on an ordinary object: an existing own property keeps its place, a
  new one is created. The one exception is the key \<^verbatim>\<open>__proto__\<close>: where the object
  has no own property of that name, the assignment runs the setter that
  \<^verbatim>\<open>Object.prototype\<close> defines, and no own property is created.
\<close>

definition obj_set :: "jsobj \<Rightarrow> string \<Rightarrow> jsval \<Rightarrow> jsobj" where
  "obj_set obj k v =
     (if k \<in> set (map fst obj) then obj_update k v obj
      else if k = ''__proto__'' then obj
      else if is_array_index k then insert_index k v obj
      else obj @ [(k, v)])"

text \<open>
  \<^verbatim>\<open>Object.assign(target, source)\<close> on the contents of the target: every own
  property of the source is written to the target, in the source's order.
\<close>

definition assign_props :: "jsobj \<Rightarrow> jsobj \<Rightarrow> jsobj" where
  "assign_props target source = fold (\<lambda>(k, v) t. obj_set t k v) source target"

text \<open>
  Property access \<^verbatim>\<open>v.k\<close> for the property names the program reads from parsed
  JSON (\<^verbatim>\<open>success\<close>, \<^verbatim>\<open>msg\<close>, \<^verbatim>\<open>code\<close>, \<^verbatim>\<open>result\<close>,
  \<^verbatim>\<open>access_token\<close>, \<^verbatim>\<open>value\<close>), none of which a prototype defines:
  reading from an object gives its own property, from any other value
  \<^verbatim>\<open>undefined\<close>; but plain access \<^verbatim>\<open>v.k\<close> (other than \<^verbatim>\<open>v?.k\<close>) to
  \<^verbatim>\<open>null\<close> or \<^verbatim>\<open>undefined\<close> throws a TypeError (the message is the engine's;
  nothing below depends on its text).
\<close>

definition get_own :: "jsval \<Rightarrow> string \<Rightarrow> jsval" where
  "get_own v k = (case v of JObj kvs \<Rightarrow> obj_get kvs k | _ \<Rightarrow> JUndefined)"

definition get_prop :: "jsval \<Rightarrow> string \<Rightarrow> js_error + jsval" where
  "get_prop v k =
     (case v of
        JUndefined \<Rightarrow>
          Inl (JSError ''TypeError''
                 (''Cannot read properties of undefined (reading '' @ [CHR 0x27] @ k @ [CHR 0x27] @ '')''))
      | JNull \<Rightarrow>
          Inl (JSError ''TypeError''
                 (''Cannot read properties of null (reading '' @ [CHR 0x27] @ k @ [CHR 0x27] @ '')''))
      | _ \<Rightarrow> Inr (get_own v k))"

subsection \<open>JSON.stringify\<close>

text \<open>
  \<^verbatim>\<open>QuoteJSONString\<close>: the double quote and the backslash are escaped, the control
  characters below U+0020 have a short escape or a \<^verbatim>\<open>\u00XX\<close> escape.
\<close>

definition hex_digit :: "nat \<Rightarrow> char" where
  "hex_digit d = ''0123456789abcdef'' ! d"

definition json_escape_char :: "char \<Rightarrow> string" where
  "json_escape_char c =
     (let n = (of_char c :: nat) in
      if c = CHR 0x22 then [CHR 0x5C, CHR 0x22]
      else if c = CHR 0x5C then [CHR 0x5C, CHR 0x5C]
      else if n = 8 then [CHR 0x5C, CHR ''b'']
      else if n = 9 then [CHR 0x5C, CHR ''t'']
      else if n = 10 then [CHR 0x5C, CHR ''n'']
      else if n = 12 then [CHR 0x5C, CHR ''f'']
      else if n = 13 then [CHR 0x5C, CHR ''r'']
      else if n < 32 then [CHR 0x5C, CHR ''u'', CHR ''0'', CHR ''0'', hex_digit (n div 16), hex_digit (n mod 16)]
      else [c])"

definition json_quote :: "string \<Rightarrow> string" where
  "json_quote s = [CHR 0x22] @ concat (map json_escape_char s) @ [CHR 0x22]"

text \<open>
  \<^verbatim>\<open>SerializeJSONProperty\<close>. \<open>json_text\<close> is the text of a value where one is
  required (an array element): \<^verbatim>\<open>undefined\<close> and functions are written
  \<^verbatim>\<open>null\<close> there, and a property holding one of them is left out of its object.
\<close>

fun omitted :: "jsval \<Rightarrow> bool" where
  "omitted JUndefined = True"
| "omitted (JFun f) = True"
| "omitted v = False"

fun json_text :: "jsval \<Rightarrow> string" where
  "json_text JUndefined = ''null''"
| "json_text JNull = ''null''"
| "json_text (JBool b) = (if b then ''true'' else ''false'')"
| "json_text (JNum n) = show_int n"
| "json_text (JStr s) = json_quote s"
| "json_text (JArr xs) = ''['' @ join '','' (map json_text xs) @ '']''"
| "json_text (JObj kvs) =
     ''{'' @ join '',''
        (map (\<lambda>(k, v). json_quote k @ '':'' @ json_text v)
           (filter (\<lambda>(k, v). \<not> omitted v) kvs)) @ ''}''"
| "json_text (JFun f) = ''null''"

text \<open>
  \<^verbatim>\<open>JSON.stringify(v)\<close>: \<^verbatim>\<open>undefined\<close> (here \<open>None\<close>) for
  \<^verbatim>\<open>undefined\<close> and for a function, a string for every other value.
\<close>

definition JSON_stringify :: "jsval \<Rightarrow> string option" where
  "JSON_stringify v =
     (if omitted v then None else Some (json_text v))"

text \<open>\<^verbatim>\<open>JSON.stringify\<close> of an object or of an array is always a string.\<close>

definition JSON_stringify_obj :: "jsobj \<Rightarrow> string" where
  "JSON_stringify_obj obj = json_text (JObj obj)"

definition JSON_stringify_arr :: "jsval list \<Rightarrow> string" where
  "JSON_stringify_arr xs = json_text (JArr xs)"

text \<open>
  Property access on an object created by an object literal, for any key: an own
  property first, then the properties every object inherits from
  \<^verbatim>\<open>Object.prototype\<close>. These are built-in functions, but \<^verbatim>\<open>__proto__\<close>,
  which reads as \<^verbatim>\<open>Object.prototype\<close> itself, an object with no enumerable
  property.
\<close>

definition object_prototype_get :: "string \<Rightarrow> jsval" where
  "object_prototype_get k =
     (if k = ''__proto__'' then JObj []
      else if k = ''constructor'' then JFun ''Object''
      else if k \<in> set [''__defineGetter__'', ''__defineSetter__'', ''hasOwnProperty'',
                         ''__lookupGetter__'', ''__lookupSetter__'', ''isPrototypeOf'',
                         ''propertyIsEnumerable'', ''toString'', ''valueOf'', ''toLocaleString'']
      then JFun k
      else JUndefined)"

definition get_member :: "jsobj \<Rightarrow> string \<Rightarrow> jsval" where
  "get_member obj k = (case map_of obj k of Some v \<Rightarrow> v | None \<Rightarrow> object_prototype_get k)"

section \<open>The environment of the program\<close>

text \<open>
  The libraries the program calls are parameters of the model: the digests of
  \<^verbatim>\<open>node:crypto\<close> (as byte lists), \<^verbatim>\<open>qs.parse\<close> and \<^verbatim>\<open>qs.stringify\<close>,
  \<^verbatim>\<open>decodeURIComponent\<close> and \<^verbatim>\<open>JSON.parse\<close> (both may throw).
\<close>

record lib =
  sha256 :: "string \<Rightarrow> 8 word list"
  hmac_sha256 :: "string \<Rightarrow> string \<Rightarrow> 8 word list"
  qs_parse :: "string option \<Rightarrow> jsobj"
  qs_stringify :: "jsobj \<Rightarrow> string"
  decodeURIComponent :: "string \<Rightarrow> js_error + string"
  JSON_parse :: "string \<Rightarrow> js_error + jsval"

text \<open>\<^verbatim>\<open>.digest('hex')\<close>: two lower-case hexadecimal digits for each byte.\<close>

definition digest_hex :: "8 word list \<Rightarrow> string" where
  "digest_hex bs = concat (map (\<lambda>b. [hex_digit (unat b div 16), hex_digit (unat b mod 16)]) bs)"

text \<open>
  An HTTP request as \<^verbatim>\<open>fetch(url, options)\<close> receives it, and the response:
  its status and what \<^verbatim>\<open>response.json()\<close> gives (a SyntaxError when the body is
  not JSON). \<^verbatim>\<open>response.ok\<close> is a status from 200 to 299.
\<close>

record request =
  req_url :: string
  req_method :: "string option"
  req_headers :: jsobj
  req_body :: "string option"

record response =
  resp_status :: nat
  resp_json :: "js_error + jsval"

definition resp_ok :: "response \<Rightarrow> bool" where
  "resp_ok r = (200 \<le> resp_status r \<and> resp_status r \<le> 299)"

text \<open>
  The world outside: what \<^verbatim>\<open>fetch\<close> answers to a request (a rejection or a
  response), and what \<^verbatim>\<open>Date.now()\<close> returns at its two calls, the one in
  \<^verbatim>\<open>getRequestSign\<close> and the later one in \<^verbatim>\<open>getToken\<close>.
\<close>

record world =
  fetch :: "request \<Rightarrow> js_error + response"
  now_getRequestSign :: nat
  now_getToken :: nat

text \<open>
  The state the program changes: the objects that are shared by reference (the store
  maps a reference to the object's properties; \<open>next_ref\<close> is the next free
  reference), and the trace of what the program did to the outside: the requests it
  sent and the responses whose body it read with \<^verbatim>\<open>response.json()\<close>.
  Logging to the console is left out.
\<close>

datatype event = Fetch request | ReadJson response

record state =
  objs :: "nat \<Rightarrow> jsobj"
  next_ref :: nat
  events :: "event list"

type_synonym 'a io = "state \<Rightarrow> (js_error + 'a) \<times> state"

definition emit :: "event \<Rightarrow> state \<Rightarrow> state" where
  "emit e st = st\<lparr>events := events st @ [e]\<rparr>"

text \<open>An object literal that is passed on by reference.\<close>

definition alloc :: "jsobj \<Rightarrow> state \<Rightarrow> nat \<times> state" where
  "alloc obj st = (next_ref st, st\<lparr>objs := (objs st)(next_ref st := obj), next_ref := Suc (next_ref st)\<rparr>)"

text \<open>\<^verbatim>\<open>Object.assign(target, source)\<close>: changes the target in place (and returns it).\<close>

definition Object_assign :: "nat \<Rightarrow> jsobj \<Rightarrow> state \<Rightarrow> state" where
  "Object_assign target source st = st\<lparr>objs := (objs st)(target := assign_props (objs st target) source)\<rparr>"

record creds =
  accessKey :: string
  baseUrl :: string
  secretKey :: string

record env =
  BEDROOM_DEVICE_ID :: jsval
  LIVINGROOM_DEVICE_ID :: jsval
  DINNING_DEVICE_ID :: jsval
  KITCHEN_DEVICE_ID :: jsval

section \<open>The program: \<^verbatim>\<open>src/utils/tuya.ts\<close>\<close>

definition encryptStr :: "lib \<Rightarrow> string \<Rightarrow> string \<Rightarrow> string" where
  "encryptStr L str secret = toUpperCase (digest_hex (hmac_sha256 L secret str))"

text \<open>
  \<^verbatim>\<open>getToken\<close>, after the response is parsed: the failure on a falsy
  \<^verbatim>\<open>success\<close>, and \<^verbatim>\<open>res.result?.access_token || 'NO TOKEN'\<close>.
\<close>

definition token_of_envelope :: "jsval \<Rightarrow> js_error + jsval" where
  "token_of_envelope res =
     (case get_prop res ''success'' of
        Inl e \<Rightarrow> Inl e
      | Inr success \<Rightarrow>
          if \<not> truthy success then
            Inl (new_Error (''Fetch failed: '' @ to_string (get_own res ''msg'')))
          else
            (let access_token = get_own (get_own res ''result'') ''access_token''
             in Inr (if truthy access_token then access_token else JStr ''NO TOKEN'')))"

definition token_request :: "lib \<Rightarrow> world \<Rightarrow> creds \<Rightarrow> request" where
  "token_request L W creds =
     (let method = ''GET'';
          timestamp = show_nat (now_getToken W);
          signUrl = ''/v1.0/token?grant_type=1'';
          contentHash = digest_hex (sha256 L []);
          stringToSign = join [CHR 0x0A] [method, contentHash, [], signUrl];
          signStr = accessKey creds @ timestamp @ stringToSign;
          headers = [(''t'', JStr timestamp),
                     (''sign_method'', JStr ''HMAC-SHA256''),
                     (''client_id'', JStr (accessKey creds)),
                     (''sign'', JStr (encryptStr L signStr (secretKey creds)))]
      in \<lparr>req_url = baseUrl creds @ ''/v1.0/token?grant_type=1'', req_method = None,
          req_headers = headers, req_body = None\<rparr>)"

definition getToken :: "lib \<Rightarrow> world \<Rightarrow> creds \<Rightarrow> jsval io" where
  "getToken L W creds st =
     (let req = token_request L W creds;
          st1 = emit (Fetch req) st
      in case fetch W req of
           Inl e \<Rightarrow> (Inl e, st1)
         | Inr response \<Rightarrow>
             (let st2 = emit (ReadJson response) st1
              in case resp_json response of
                   Inl e \<Rightarrow> (Inl e, st2)
                 | Inr res \<Rightarrow> (token_of_envelope res, st2)))"

text \<open>
  \<^verbatim>\<open>getRequestSign\<close>. The pieces of its body are named as its local constants
  are. \<^verbatim>\<open>const [uri, pathQuery] = path.split('?')\<close> takes the first two
  pieces of the path; \<^verbatim>\<open>pathQuery\<close> is \<^verbatim>\<open>undefined\<close> when there is one only.
\<close>

definition path_uri :: "string \<Rightarrow> string" where
  "path_uri path = (case split_on CHR ''?'' path of [] \<Rightarrow> [] | uri # rest \<Rightarrow> uri)"

definition path_pathQuery :: "string \<Rightarrow> string option" where
  "path_pathQuery path =
     (case split_on CHR ''?'' path of
        [] \<Rightarrow> None
      | uri # rest \<Rightarrow> (case rest of [] \<Rightarrow> None | pathQuery # others \<Rightarrow> Some pathQuery))"

text \<open>
  \<^verbatim>\<open>Object.keys(queryMerged).sort().forEach((i) => (sortedQuery[i] = query[i]))\<close>,
  given the properties of the object that both \<^verbatim>\<open>queryMerged\<close> and
  \<^verbatim>\<open>query\<close> refer to. \<^verbatim>\<open>sort()\<close> compares strings code unit by code unit.
\<close>

definition sortedQuery_of :: "jsobj \<Rightarrow> jsobj" where
  "sortedQuery_of query = fold (\<lambda>i sortedQuery. obj_set sortedQuery i (obj_get query i)) (sort (map fst query)) []"

definition contentHash_of :: "lib \<Rightarrow> string \<Rightarrow> jsobj \<Rightarrow> string" where
  "contentHash_of L method body =
     (if method \<noteq> ''GET'' then digest_hex (sha256 L (JSON_stringify_obj body))
      else digest_hex (sha256 L []))"

definition getRequestSign ::
  "lib \<Rightarrow> world \<Rightarrow> creds \<Rightarrow> string \<Rightarrow> string \<Rightarrow> jsobj option \<Rightarrow> nat option \<Rightarrow> jsobj option \<Rightarrow> jsobj io" where
  "getRequestSign L W creds path method headers_arg query_arg body_arg st0 =
     (let (query, st1) = (case query_arg of None \<Rightarrow> alloc [] st0 | Some r \<Rightarrow> (r, st0));
          body = (case body_arg of None \<Rightarrow> [] | Some b \<Rightarrow> b);
          t = show_nat (now_getRequestSign W);
          uri = path_uri path;
          pathQuery = path_pathQuery path
      in case getToken L W creds st1 of
           (Inl e, st2) \<Rightarrow> (Inl e, st2)
         | (Inr token, st2) \<Rightarrow>
             (let st3 = Object_assign query (qs_parse L pathQuery) st2;
                  queryMerged = query;
                  sortedQuery = sortedQuery_of (objs st3 queryMerged)
              in case decodeURIComponent L (qs_stringify L sortedQuery) of
                   Inl e \<Rightarrow> (Inl e, st3)
                 | Inr querystring \<Rightarrow>
                     (let url = (if querystring \<noteq> [] then uri @ ''?'' @ querystring else uri);
                          contentHash = contentHash_of L method body;
                          stringToSign = join [CHR 0x0A] [method, contentHash, [], url];
                          signStr = accessKey creds @ to_string token @ t @ stringToSign
                      in (Inr [(''t'', JStr t),
                               (''path'', JStr url),
                               (''client_id'', JStr (accessKey creds)),
                               (''sign'', JStr (encryptStr L signStr (secretKey creds))),
                               (''sign_method'', JStr ''HMAC-SHA256''),
                               (''access_token'', token)], st3))))"

text \<open>
  \<^verbatim>\<open>authenticatedCall\<close>. The signing is outside the \<^verbatim>\<open>try\<close> block, so its
  failures pass unchanged; whatever is thrown inside the block is caught and thrown
  again as \<^verbatim>\<open>new Error(`${error}`)\<close>.
\<close>

definition envelope_check :: "jsval \<Rightarrow> js_error + jsval" where
  "envelope_check result =
     (case get_prop result ''success'' of
        Inl e \<Rightarrow> Inl e
      | Inr success \<Rightarrow>
          if \<not> truthy success then
            Inl (new_Error (''Error message: '' @ to_string (get_own result ''msg'') @
                            ''. Error code: '' @ to_string (get_own result ''code'')))
          else Inr result)"

definition call_request :: "creds \<Rightarrow> string \<Rightarrow> string \<Rightarrow> jsobj \<Rightarrow> jsobj option \<Rightarrow> request" where
  "call_request creds method endpoint reqHeaders body =
     \<lparr>req_url = baseUrl creds @ endpoint, req_method = Some method, req_headers = reqHeaders,
      req_body = (case body of
                    None \<Rightarrow> None
                  | Some b \<Rightarrow> if method = ''POST'' then Some (JSON_stringify_obj b) else None)\<rparr>"

definition try_block :: "world \<Rightarrow> request \<Rightarrow> jsval io" where
  "try_block W req st1 =
     (let st2 = emit (Fetch req) st1
      in case fetch W req of
           Inl e \<Rightarrow> (Inl e, st2)
         | Inr response \<Rightarrow>
             if \<not> resp_ok response then
               (Inl (new_Error (''HTTP Error. Status '' @ show_nat (resp_status response))), st2)
             else
               (let st3 = emit (ReadJson response) st2
                in case resp_json response of
                     Inl e \<Rightarrow> (Inl e, st3)
                   | Inr result \<Rightarrow> (envelope_check result, st3)))"

definition catch_rethrow :: "(js_error + 'a) \<Rightarrow> (js_error + 'a)" where
  "catch_rethrow r = (case r of Inl error \<Rightarrow> Inl (new_Error (error_toString error)) | Inr v \<Rightarrow> Inr v)"

definition authenticatedCall ::
  "lib \<Rightarrow> world \<Rightarrow> creds \<Rightarrow> string \<Rightarrow> string \<Rightarrow> nat option \<Rightarrow> jsobj option \<Rightarrow> jsval io" where
  "authenticatedCall L W creds method endpoint query body st =
     (case getRequestSign L W creds endpoint method (Some []) query body st of
        (Inl e, st1) \<Rightarrow> (Inl e, st1)
      | (Inr reqHeaders, st1) \<Rightarrow>
          (case try_block W (call_request creds method endpoint reqHeaders body) st1 of
             (r, st2) \<Rightarrow> (catch_rethrow r, st2)))"

text \<open>
  \<^verbatim>\<open>getDeviceStatus\<close>: the callback of \<^verbatim>\<open>result.forEach\<close>, the loop over the
  list, and the function. \<^verbatim>\<open>JSON.parse\<close> converts its argument to a string first.
\<close>

definition status_step :: "lib \<Rightarrow> jsval \<Rightarrow> jsobj \<Rightarrow> js_error + jsobj" where
  "status_step L c status =
     (case get_prop c ''code'' of
        Inl e \<Rightarrow> Inl e
      | Inr code \<Rightarrow>
          if code = JStr ''switch_led'' then
            Inr (assign_props status [(''onOff'', get_own c ''value'')])
          else if code = JStr ''bright_value_v2'' then
            Inr (assign_props status [(''brightness'', get_own c ''value'')])
          else if code = JStr ''temp_value_v2'' then
            Inr (assign_props status [(''temp'', get_own c ''value'')])
          else if code = JStr ''colour_data_v2'' then
            (case JSON_parse L (to_string (get_own c ''value'')) of
               Inl e \<Rightarrow> Inl e
             | Inr parsed \<Rightarrow> Inr (assign_props status [(''color'', parsed)]))
          else Inr status)"

fun status_forEach :: "lib \<Rightarrow> jsval list \<Rightarrow> jsobj \<Rightarrow> js_error + jsobj" where
  "status_forEach L [] status = Inr status"
| "status_forEach L (c # cs) status =
     (case status_step L c status of
        Inl e \<Rightarrow> Inl e
      | Inr status' \<Rightarrow> status_forEach L cs status')"

definition decode_status :: "lib \<Rightarrow> jsval \<Rightarrow> js_error + jsobj" where
  "decode_status L result =
     (case result of
        JArr cs \<Rightarrow> status_forEach L cs []
      | JUndefined \<Rightarrow>
          Inl (JSError ''TypeError'' ''Cannot read properties of undefined (reading 'forEach')'')
      | JNull \<Rightarrow>
          Inl (JSError ''TypeError'' ''Cannot read properties of null (reading 'forEach')'')
      | _ \<Rightarrow> Inl (JSError ''TypeError'' ''result.forEach is not a function''))"

definition getDeviceStatus :: "lib \<Rightarrow> world \<Rightarrow> creds \<Rightarrow> string \<Rightarrow> jsobj io" where
  "getDeviceStatus L W creds deviceId st =
     (let endpoint = ''/v1.0/devices/'' @ deviceId @ ''/status'';
          method = ''GET''
      in case authenticatedCall L W creds method endpoint None None st of
           (Inl e, st1) \<Rightarrow> (Inl e, st1)
         | (Inr envelope, st1) \<Rightarrow>
             (case get_prop envelope ''result'' of
                Inl e \<Rightarrow> (Inl e, st1)
              | Inr result \<Rightarrow> (decode_status L result, st1)))"

definition turnOnOff :: "lib \<Rightarrow> world \<Rightarrow> creds \<Rightarrow> string \<Rightarrow> bool \<Rightarrow> string io" where
  "turnOnOff L W creds deviceId onOff st =
     (let method = ''POST'';
          endpoint = ''/v1.0/devices/'' @ deviceId @ ''/commands'';
          commands = [JObj [(''code'', JStr ''switch_led''), (''value'', JBool onOff)]];
          body = [(''commands'', JStr (JSON_stringify_arr commands))];
          (query, st1) = alloc [] st
      in case authenticatedCall L W creds method endpoint (Some query) (Some body) st1 of
           (Inl e, st2) \<Rightarrow> (Inl e, st2)
         | (Inr result, st2) \<Rightarrow>
             (Inr (JSON_stringify_obj
                     [(''message'', JStr (''The light is now '' @ (if onOff then ''on'' else ''off''))),
                      (''deviceId'', JStr deviceId),
                      (''currentState'', JBool onOff)]), st2))"

definition getDeviceId :: "string \<Rightarrow> env \<Rightarrow> string option" where
  "getDeviceId roomName e =
     (let devices = [(''bedroom'', BEDROOM_DEVICE_ID e),
                     (''livingroom'', LIVINGROOM_DEVICE_ID e),
                     (''diningroom'', DINNING_DEVICE_ID e),
                     (''kitchen'', KITCHEN_DEVICE_ID e)]
      in JSON_stringify (get_member devices roomName))"

definition changeColor :: "lib \<Rightarrow> world \<Rightarrow> creds \<Rightarrow> string \<Rightarrow> int \<Rightarrow> int \<Rightarrow> int \<Rightarrow> string io" where
  "changeColor L W creds deviceId h s v st =
     (let method = ''POST'';
          endpoint = ''/v1.0/devices/'' @ deviceId @ ''/commands'';
          commands = [JObj [(''code'', JStr ''colour_data_v2''),
                            (''value'', JStr (JSON_stringify_obj [(''h'', JNum h), (''s'', JNum s), (''v'', JNum v)]))]];
          body = [(''commands'', JStr (JSON_stringify_arr commands))];
          (query, st1) = alloc [] st
      in case authenticatedCall L W creds method endpoint (Some query) (Some body) st1 of
           (Inl e, st2) \<Rightarrow> (Inl e, st2)
         | (Inr envelope, st2) \<Rightarrow>
             (Inr (JSON_stringify_obj
                     [(''message'', JStr ''The color has changed''),
                      (''deviceId'', JStr deviceId),
                      (''currentState'', JStr (''h: '' @ show_int h @ '', s: '' @ show_int s @ '', v: '' @ show_int v))]), st2))"

section \<open>The tool layer: \<^verbatim>\<open>getDeviceId\<close>'s \<^verbatim>\<open>execute\<close>\<close>

text \<open>\<^verbatim>\<open>roomName.trim().toLowerCase().replaceAll(/\s/g, '')\<close>\<close>

definition normalize_roomName :: "string \<Rightarrow> string" where
  "normalize_roomName roomName = filter (\<lambda>c. \<not> is_space c) (toLowerCase (trim roomName))"

definition getDeviceId_execute :: "string \<Rightarrow> env \<Rightarrow> string option" where
  "getDeviceId_execute roomName e = getDeviceId (normalize_roomName roomName) e"

section \<open>The specification's own words\<close>

text \<open>
  The signature as the specification describes it: the digest written in upper-case
  hexadecimal, two digits for each byte.
\<close>

definition upper_hex_digit :: "nat \<Rightarrow> char" where
  "upper_hex_digit d = ''0123456789ABCDEF'' ! d"

definition spec_uppercase_hex :: "8 word list \<Rightarrow> string" where
  "spec_uppercase_hex bs =
     concat (map (\<lambda>b. [upper_hex_digit (unat b div 16), upper_hex_digit (unat b mod 16)]) bs)"

text \<open>
  The status list as the specification describes it: a \<^verbatim>\<open>{code, value}\<close> pair and
  a list of them, the fixed table from codes to fields, the value a field receives (the colour is a JSON
  text that is parsed again), and the value of the last pair that carries a code.
\<close>

definition status_pair :: "string \<Rightarrow> jsval \<Rightarrow> jsval" where
  "status_pair code v = JObj [(''code'', JStr code), (''value'', v)]"

definition status_pairs :: "(string \<times> jsval) list \<Rightarrow> jsval" where
  "status_pairs ps = JArr (map (\<lambda>(c, v). status_pair c v) ps)"

definition code_field :: "(string \<times> string) list" where
  "code_field =
     [(''switch_led'', ''onOff''),
      (''bright_value_v2'', ''brightness''),
      (''temp_value_v2'', ''temp''),
      (''colour_data_v2'', ''color'')]"

definition field_value :: "lib \<Rightarrow> string \<Rightarrow> jsval \<Rightarrow> js_error + jsval" where
  "field_value L code v = (if code = ''colour_data_v2'' then JSON_parse L (to_string v) else Inr v)"

definition last_value :: "string \<Rightarrow> (string \<times> jsval) list \<Rightarrow> jsval option" where
  "last_value code ps = map_option snd (find (\<lambda>(c, v). c = code) (rev ps))"


section \<open>Auxiliary definitions\<close>

text \<open>
  The order of an object's keys: the array indices first, in ascending numeric order,
  then the other keys.
\<close>

definition keys_inv :: "string list \<Rightarrow> bool" where
  "keys_inv ks \<longleftrightarrow>
     ks = filter is_array_index ks @ filter (\<lambda>k. \<not> is_array_index k) ks
     \<and> sorted (map index_value (filter is_array_index ks))"


text \<open>One header of the headers that a signing returned.\<close>

definition header_of :: "string \<Rightarrow> js_error + jsobj \<Rightarrow> js_error + jsval" where
  "header_of k r = (case r of Inl e \<Rightarrow> Inl e | Inr h \<Rightarrow> Inr (obj_get h k))"


section \<open>A sample environment\<close>

text \<open>
  Concrete libraries, credentials and worlds, on which the closed examples below are
  evaluated. The stand-ins for \<^verbatim>\<open>qs\<close> agree with the library on flat query
  strings and flat objects without characters that need escaping (there,
  \<^verbatim>\<open>decodeURIComponent\<close> undoes the escaping of \<^verbatim>\<open>qs.stringify\<close>); the
  stand-in for \<^verbatim>\<open>JSON.parse\<close> knows the two texts the examples parse. The
  stand-ins for the digests are not the hash functions: they return the bytes of what
  they are given (for the HMAC the key, then the message), so that an example shows
  what was hashed and what was signed.
\<close>

definition demo_sha256 :: "string \<Rightarrow> 8 word list" where
  "demo_sha256 s = map of_char s"

definition demo_hmac_sha256 :: "string \<Rightarrow> string \<Rightarrow> 8 word list" where
  "demo_hmac_sha256 k m = map of_char (k @ m)"

definition demo_qs_parse :: "string option \<Rightarrow> jsobj" where
  "demo_qs_parse pathQuery =
     (case pathQuery of
        None \<Rightarrow> []
      | Some q \<Rightarrow>
          if q = [] then []
          else assign_props []
                 (map (\<lambda>kv. case split_on CHR ''='' kv of
                               [] \<Rightarrow> (kv, JStr [])
                             | k # vs \<Rightarrow> (k, JStr (join ''='' vs)))
                    (split_on CHR ''&'' q)))"

definition demo_qs_stringify :: "jsobj \<Rightarrow> string" where
  "demo_qs_stringify obj =
     join ''&'' (map (\<lambda>(k, v). k @ ''='' @ (if v = JNull then [] else to_string v))
                  (filter (\<lambda>(k, v). v \<noteq> JUndefined) obj))"

definition example_colour_text :: string where
  "example_colour_text =
     [CHR ''{'', CHR 0x22, CHR ''h'', CHR 0x22, CHR '':'', CHR ''1'', CHR ''0'', CHR '','',
      CHR 0x22, CHR ''s'', CHR 0x22, CHR '':'', CHR ''5'', CHR ''0'', CHR ''0'', CHR '','',
      CHR 0x22, CHR ''v'', CHR 0x22, CHR '':'', CHR ''8'', CHR ''0'', CHR ''0'', CHR ''}'']"

definition demo_JSON_parse :: "string \<Rightarrow> js_error + jsval" where
  "demo_JSON_parse s =
     (if s = example_colour_text then Inr (JObj [(''h'', JNum 10), (''s'', JNum 500), (''v'', JNum 800)])
      else if s = ''true'' then Inr (JBool True)
      else Inl (JSError ''SyntaxError'' ''Unexpected token''))"

definition demo_lib :: lib where
  "demo_lib =
     \<lparr>sha256 = demo_sha256,
      hmac_sha256 = demo_hmac_sha256,
      qs_parse = demo_qs_parse,
      qs_stringify = demo_qs_stringify,
      decodeURIComponent = Inr,
      JSON_parse = demo_JSON_parse\<rparr>"

definition demo_creds :: creds where
  "demo_creds = \<lparr>accessKey = ''ak'', baseUrl = ''https://openapi.example'', secretKey = ''sk''\<rparr>"

definition demo_world :: "(js_error + response) \<Rightarrow> (js_error + response) \<Rightarrow> world" where
  "demo_world token_answer call_answer =
     \<lparr>fetch = (\<lambda>req. if req_url req = ''https://openapi.example/v1.0/token?grant_type=1''
                       then token_answer else call_answer),
      now_getRequestSign = 1700000000000,
      now_getToken = 1700000000001\<rparr>"

definition json_response :: "nat \<Rightarrow> jsval \<Rightarrow> js_error + response" where
  "json_response code v = Inr \<lparr>resp_status = code, resp_json = Inr v\<rparr>"

definition token_ok :: "js_error + response" where
  "token_ok = json_response 200
     (JObj [(''result'', JObj [(''access_token'', JStr ''tok1''), (''expire_time'', JNum 7200)]),
            (''success'', JBool True)])"

definition token_refused :: "js_error + response" where
  "token_refused = json_response 200
     (JObj [(''code'', JNum 1004), (''msg'', JStr ''invalid signature''), (''success'', JBool False)])"

definition no_answer :: "js_error + response" where
  "no_answer = Inl (JSError ''TypeError'' ''fetch failed'')"

definition state_with :: "jsobj \<Rightarrow> state" where
  "state_with obj = \<lparr>objs = (\<lambda>r. if r = 0 then obj else []), next_ref = 1, events = []\<rparr>"

definition st0 :: state where
  "st0 = \<lparr>objs = (\<lambda>r. []), next_ref = 0, events = []\<rparr>"

definition demo_env :: env where
  "demo_env =
     \<lparr>BEDROOM_DEVICE_ID = JStr ''bed1'', LIVINGROOM_DEVICE_ID = JStr ''liv1'',
      DINNING_DEVICE_ID = JStr ''din1'', KITCHEN_DEVICE_ID = JUndefined\<rparr>"


section \<open>Helper lemmas\<close>

subsection \<open>Objects\<close>

lemma key_mem_iff: "k \<in> set (map fst obj) \<longleftrightarrow> map_of obj k \<noteq> None"
  by (simp add: map_of_eq_None_iff)

lemma map_fst_obj_update: "map fst (obj_update k v obj) = map fst obj"
  by (induction obj) auto

lemma map_of_obj_update:
  "map_of (obj_update k v obj) k' = (if k' = k \<and> map_of obj k \<noteq> None then Some v else map_of obj k')"
  by (induction obj) auto

lemma map_of_insert_index:
  "map_of obj k = None \<Longrightarrow> map_of (insert_index k v obj) k' = (if k' = k then Some v else map_of obj k')"
  by (induction obj) (auto split: if_splits)

lemma map_of_obj_set:
  "k \<noteq> ''__proto__'' \<Longrightarrow> map_of (obj_set obj k v) k' = (if k' = k then Some v else map_of obj k')"
  unfolding obj_set_def key_mem_iff
  by (auto simp: map_of_obj_update map_of_insert_index map_add_def split: option.splits)

lemma set_keys_obj_set:
  assumes "k \<noteq> ''__proto__''"
  shows "set (map fst (obj_set obj k v)) = insert k (set (map fst obj))"
proof -
  have "\<And>k'. k' \<in> set (map fst (obj_set obj k v)) \<longleftrightarrow> k' \<in> insert k (set (map fst obj))"
    unfolding key_mem_iff insert_iff by (simp add: map_of_obj_set [OF assms])
  then show ?thesis by blast
qed

lemma map_of_assign_props:
  "''__proto__'' \<notin> set (map fst source) \<Longrightarrow>
   map_of (assign_props target source) k =
     (case map_of (rev source) k of None \<Rightarrow> map_of target k | Some v \<Rightarrow> Some v)"
  unfolding assign_props_def
proof (induction source arbitrary: target)
  case Nil
  show ?case by simp
next
  case (Cons p source)
  obtain k' v where p: "p = (k', v)" by (cases p)
  from Cons.prems have ne: "k' \<noteq> ''__proto__''" and rest: "''__proto__'' \<notin> set (map fst source)"
    by (auto simp: p simp del: set_map)
  show ?case
    by (simp add: p Cons.IH [OF rest] map_of_obj_set [OF ne] map_add_def split: option.splits)
qed

lemma set_keys_assign_props:
  "''__proto__'' \<notin> set (map fst source) \<Longrightarrow>
   set (map fst (assign_props target source)) = set (map fst target) \<union> set (map fst source)"
  unfolding assign_props_def
proof (induction source arbitrary: target)
  case Nil
  show ?case by simp
next
  case (Cons p source)
  obtain k' v where p: "p = (k', v)" by (cases p)
  from Cons.prems have ne: "k' \<noteq> ''__proto__''" and rest: "''__proto__'' \<notin> set (map fst source)"
    by (auto simp: p simp del: set_map)
  have "set (map fst (fold (\<lambda>(k, v) t. obj_set t k v) source (obj_set target k' v)))
        = set (map fst (obj_set target k' v)) \<union> set (map fst source)"
    using rest by (rule Cons.IH)
  then show ?case
    unfolding p set_keys_obj_set [OF ne] by (simp del: set_map)
qed

lemma set_keys_insert_index: "set (map fst (insert_index k v obj)) = insert k (set (map fst obj))"
proof (induction obj)
  case Nil
  show ?case by simp
next
  case (Cons p obj)
  obtain k' v' where p: "p = (k', v')" by (cases p)
  show ?case
  proof (cases "is_array_index k' \<and> index_value k' < index_value k")
    case True
    then have "set (map fst (insert_index k v (p # obj))) = insert k' (set (map fst (insert_index k v obj)))"
      by (simp add: p del: set_map)
    also have "\<dots> = insert k' (insert k (set (map fst obj)))"
      by (simp only: Cons.IH)
    finally show ?thesis by (simp add: p del: set_map) blast
  next
    case False
    then have "insert_index k v (p # obj) = (k, v) # p # obj"
      by (auto simp: p)
    then show ?thesis by (simp del: set_map)
  qed
qed

lemma distinct_insert_index:
  "distinct (map fst obj) \<Longrightarrow> k \<notin> set (map fst obj) \<Longrightarrow> distinct (map fst (insert_index k v obj))"
proof (induction obj)
  case Nil
  show ?case by simp
next
  case (Cons p obj)
  obtain k' v' where p: "p = (k', v')" by (cases p)
  from Cons.prems have d: "distinct (map fst obj)" and nk: "k \<notin> set (map fst obj)"
    and nk': "k' \<notin> set (map fst obj)" and ne: "k \<noteq> k'"
    by (auto simp: p simp del: set_map)
  have ih: "distinct (map fst (insert_index k v obj))" using Cons.IH d nk by blast
  have "k' \<notin> set (map fst (insert_index k v obj))"
    unfolding set_keys_insert_index using nk' ne by blast
  with ih d nk nk' ne show ?case by (simp add: p del: set_map)
qed

lemma distinct_obj_set: "distinct (map fst obj) \<Longrightarrow> distinct (map fst (obj_set obj k v))"
  unfolding obj_set_def
  by (simp add: map_fst_obj_update distinct_insert_index del: set_map)

lemma distinct_assign_props:
  "distinct (map fst target) \<Longrightarrow> distinct (map fst (assign_props target source))"
  unfolding assign_props_def
  by (induction source arbitrary: target) (auto simp: distinct_obj_set simp del: set_map)

subsection \<open>Hexadecimal digits\<close>

lemma upper_char_hex_digit: "d < 16 \<Longrightarrow> upper_char (hex_digit d) = upper_hex_digit d"
proof -
  assume "d < 16"
  then have "d = 0 \<or> d = 1 \<or> d = 2 \<or> d = 3 \<or> d = 4 \<or> d = 5 \<or> d = 6 \<or> d = 7 \<or> d = 8 \<or> d = 9
      \<or> d = 10 \<or> d = 11 \<or> d = 12 \<or> d = 13 \<or> d = 14 \<or> d = 15"
    by presburger
  then show ?thesis
    by (auto simp: upper_char_def hex_digit_def upper_hex_digit_def char_of_def bit_Suc_0_iff)
qed

lemma unat_byte_div: "unat (b :: 8 word) div 16 < 16"
proof -
  have "unat b < 2 ^ 8" using unsigned_less [of b] by simp
  then show ?thesis by simp
qed

lemma toUpperCase_digest_hex: "toUpperCase (digest_hex bs) = spec_uppercase_hex bs"
  by (induction bs)
     (simp_all add: toUpperCase_def digest_hex_def spec_uppercase_hex_def upper_char_hex_digit unat_byte_div)

lemma upper_hex_digit_in: "d < 16 \<Longrightarrow> upper_hex_digit d \<in> set ''0123456789ABCDEF''"
  unfolding upper_hex_digit_def by (rule nth_mem) simp

lemma set_spec_uppercase_hex: "set (spec_uppercase_hex bs) \<subseteq> set ''0123456789ABCDEF''"
proof (induction bs)
  case Nil
  show ?case by (simp add: spec_uppercase_hex_def)
next
  case (Cons b bs)
  have "upper_hex_digit (unat b div 16) \<in> set ''0123456789ABCDEF''"
    by (rule upper_hex_digit_in) (rule unat_byte_div)
  moreover have "upper_hex_digit (unat b mod 16) \<in> set ''0123456789ABCDEF''"
    by (rule upper_hex_digit_in) simp
  ultimately show ?case
    using Cons.IH unfolding spec_uppercase_hex_def by (simp del: set_simps(2)) auto
qed

lemma length_spec_uppercase_hex: "length (spec_uppercase_hex bs) = 2 * length bs"
  by (induction bs) (simp_all add: spec_uppercase_hex_def)

subsection \<open>Numbers and paths\<close>

lemma show_nat_500: "show_nat 500 = ''500''"
  by (simp add: show_nat.simps digit_char_def)

lemma show_int_2001: "show_int 2001 = ''2001''"
  by (simp add: show_int_def show_nat.simps digit_char_def)

lemma show_int_small: "show_int 1 = ''1''" "show_int 2 = ''2''"
  by (simp_all add: show_int_def show_nat.simps digit_char_def)

lemma show_nat_now: "show_nat 1700000000000 = ''1700000000000''"
  by (simp add: show_nat.simps digit_char_def)

lemma split_on_takeWhile: "split_on c s \<noteq> [] \<and> hd (split_on c s) = takeWhile (\<lambda>x. x \<noteq> c) s"
  by (induction s) (auto split: list.splits)

lemma path_uri_takeWhile: "path_uri path = takeWhile (\<lambda>x. x \<noteq> CHR ''?'') path"
  using split_on_takeWhile [of "CHR ''?''" path]
  by (cases "split_on CHR ''?'' path") (simp_all add: path_uri_def)

lemma demo_uri: "path_uri ''/v1.0/devices?c=3'' = ''/v1.0/devices''" "path_uri ''/v1.0/devices'' = ''/v1.0/devices''"
  by (simp_all add: path_uri_def)


subsection \<open>Token acquisition\<close>

lemma getToken_parsed:
  assumes "fetch W (token_request L W creds) = Inr resp" and "resp_json resp = Inr res"
  shows "getToken L W creds st =
           (token_of_envelope res, emit (ReadJson resp) (emit (Fetch (token_request L W creds)) st))"
  using assms by (simp add: getToken_def Let_def)

lemma get_own_JBool_obj: "get_own res k = JBool b \<Longrightarrow> get_prop res k = Inr (JBool b)"
  by (cases res) (simp_all add: get_own_def get_prop_def)

lemma token_of_envelope_bool:
  assumes "get_own res ''success'' = JBool b"
  shows "token_of_envelope res =
           (if b then Inr (if truthy (get_own (get_own res ''result'') ''access_token'')
                           then get_own (get_own res ''result'') ''access_token'' else JStr ''NO TOKEN'')
            else Inl (new_Error (''Fetch failed: '' @ to_string (get_own res ''msg''))))"
  using get_own_JBool_obj [OF assms] by (simp add: token_of_envelope_def Let_def)

lemma getToken_state:
  "objs (snd (getToken L W creds st)) = objs st \<and> next_ref (snd (getToken L W creds st)) = next_ref st"
  by (simp add: getToken_def Let_def emit_def split: sum.splits)

lemma getToken_fst_indep: "fst (getToken L W creds st) = fst (getToken L W creds st')"
  by (simp add: getToken_def Let_def split: sum.splits)

lemma demo_token_url: "req_url (token_request L (demo_world a b) demo_creds) = ''https://openapi.example/v1.0/token?grant_type=1''"
  by (simp add: token_request_def demo_creds_def Let_def)

lemma demo_fetch_token: "fetch (demo_world a b) (token_request L (demo_world a b) demo_creds) = a"
  using demo_token_url [of L a b] by (simp add: demo_world_def)

lemma demo_getToken_ok:
  "fst (getToken L (demo_world token_ok b) demo_creds st) = Inr (JStr ''tok1'')"
  by (simp add: getToken_def Let_def demo_fetch_token token_ok_def json_response_def
        token_of_envelope_def get_prop_def get_own_def obj_get_def)

lemma demo_getToken_refused:
  "fst (getToken L (demo_world token_refused b) demo_creds st) = Inl (new_Error ''Fetch failed: invalid signature'')"
  by (simp add: getToken_def Let_def demo_fetch_token token_refused_def json_response_def
        token_of_envelope_def get_prop_def get_own_def obj_get_def)


subsection \<open>Signing\<close>

lemma getRequestSign_Some:
  "getRequestSign L W creds path method hdrs (Some r) body st =
     (case getToken L W creds st of
        (Inl e, st2) \<Rightarrow> (Inl e, st2)
      | (Inr token, st2) \<Rightarrow>
          (let st3 = Object_assign r (qs_parse L (path_pathQuery path)) st2
           in case decodeURIComponent L (qs_stringify L (sortedQuery_of (objs st3 r))) of
                Inl e \<Rightarrow> (Inl e, st3)
              | Inr querystring \<Rightarrow>
                  (Inr [(''t'', JStr (show_nat (now_getRequestSign W))),
                        (''path'', JStr (if querystring \<noteq> [] then path_uri path @ ''?'' @ querystring else path_uri path)),
                        (''client_id'', JStr (accessKey creds)),
                        (''sign'', JStr (encryptStr L
                            (accessKey creds @ to_string token @ show_nat (now_getRequestSign W) @
                             join [CHR 0x0A] [method, contentHash_of L method (case body of None \<Rightarrow> [] | Some b \<Rightarrow> b), [],
                               if querystring \<noteq> [] then path_uri path @ ''?'' @ querystring else path_uri path])
                            (secretKey creds))),
                        (''sign_method'', JStr ''HMAC-SHA256''),
                        (''access_token'', token)], st3)))"
  by (simp add: getRequestSign_def Let_def split: prod.splits sum.splits)

lemma getRequestSign_None:
  "getRequestSign L W creds path method hdrs None body st =
     getRequestSign L W creds path method hdrs (Some (next_ref st)) body (snd (alloc [] st))"
  by (simp add: getRequestSign_def alloc_def Let_def)

lemma getRequestSign_token_error:
  assumes "fst (getToken L W creds st) = Inl e"
  shows "getRequestSign L W creds path method hdrs (Some r) body st = (Inl e, snd (getToken L W creds st))"
  using assms unfolding getRequestSign_Some by (cases "getToken L W creds st") simp

lemma getRequestSign_Some_objs:
  assumes "fst (getToken L W creds st) = Inr token"
  shows "objs (snd (getRequestSign L W creds path method hdrs (Some r) body st)) =
           (objs st)(r := assign_props (objs st r) (qs_parse L (path_pathQuery path)))"
proof -
  obtain st2 where tok: "getToken L W creds st = (Inr token, st2)"
    using assms by (cases "getToken L W creds st") simp
  have o: "objs st2 = objs st" using getToken_state [of L W creds st] tok by simp
  show ?thesis
    unfolding getRequestSign_Some tok
    by (simp add: Let_def Object_assign_def o split: sum.splits)
qed

lemma getRequestSign_Some_okE:
  assumes ok: "getRequestSign L W creds path method hdrs (Some r) body st = (Inr h, st')"
  obtains token st2 querystring where
    "getToken L W creds st = (Inr token, st2)"
    "st' = Object_assign r (qs_parse L (path_pathQuery path)) st2"
    "decodeURIComponent L (qs_stringify L (sortedQuery_of (objs st' r))) = Inr querystring"
    "obj_get h ''path'' = JStr (if querystring \<noteq> [] then path_uri path @ ''?'' @ querystring else path_uri path)"
proof -
  obtain tr st2 where tok: "getToken L W creds st = (tr, st2)" by (cases "getToken L W creds st")
  show ?thesis
  proof (cases tr)
    case (Inl e)
    then show ?thesis using ok unfolding getRequestSign_Some tok by simp
  next
    case (Inr token)
    let ?st3 = "Object_assign r (qs_parse L (path_pathQuery path)) st2"
    show ?thesis
    proof (cases "decodeURIComponent L (qs_stringify L (sortedQuery_of (objs ?st3 r)))")
      case (Inl e)
      then show ?thesis using ok unfolding getRequestSign_Some tok Inr by (simp add: Let_def)
    next
      case (Inr querystring)
      have st': "st' = ?st3" and h: "obj_get h ''path'' = JStr (if querystring \<noteq> [] then path_uri path @ ''?'' @ querystring else path_uri path)"
        using ok unfolding getRequestSign_Some tok \<open>tr = Inr token\<close>
        by (auto simp add: Let_def Inr obj_get_def)
      show ?thesis
        using that [OF _ st' _ h] tok \<open>tr = Inr token\<close> Inr st' by simp
    qed
  qed
qed

lemma getRequestSign_Some_run:
  assumes tok: "fst (getToken L W creds st) = Inr token"
    and dec: "decodeURIComponent L
                (qs_stringify L (sortedQuery_of (assign_props (objs st r) (qs_parse L (path_pathQuery path)))))
              = Inr querystring"
  shows "\<exists>h. getRequestSign L W creds path meth hdrs (Some r) body st =
               (Inr h, Object_assign r (qs_parse L (path_pathQuery path)) (snd (getToken L W creds st)))
             \<and> obj_get h ''path'' =
                 JStr (if querystring \<noteq> [] then path_uri path @ ''?'' @ querystring else path_uri path)
             \<and> obj_get h ''access_token'' = token"
proof -
  obtain st2 where t: "getToken L W creds st = (Inr token, st2)"
    using tok by (cases "getToken L W creds st") simp
  have o2: "objs st2 = objs st" using getToken_state [of L W creds st] t by simp
  have d: "decodeURIComponent L
             (qs_stringify L (sortedQuery_of (objs (Object_assign r (qs_parse L (path_pathQuery path)) st2) r)))
           = Inr querystring"
    using dec by (simp add: Object_assign_def o2)
  show ?thesis
    unfolding getRequestSign_Some t by (simp add: Let_def d obj_get_def)
qed

lemma map_of_rev_distinct:
  assumes "distinct (map fst xs)"
  shows "map_of (rev xs) k = map_of xs k"
proof -
  have d: "distinct (map fst (rev xs))" unfolding rev_map [symmetric] using assms by simp
  have "\<And>v. map_of (rev xs) k = Some v \<longleftrightarrow> map_of xs k = Some v"
    using map_of_eq_Some_iff [OF d] map_of_eq_Some_iff [OF assms] by simp
  then show ?thesis by (cases "map_of xs k") (simp_all, metis not_Some_eq)
qed

lemma obj_get_assign_props:
  assumes "distinct (map fst source)" and "''__proto__'' \<notin> set (map fst source)"
  shows "obj_get (assign_props target source) k =
           (if k \<in> set (map fst source) then obj_get source k else obj_get target k)"
proof -
  have "map_of (rev source) k = map_of source k"
    using assms(1) by (rule map_of_rev_distinct)
  then show ?thesis
    unfolding key_mem_iff
    by (auto simp: obj_get_def map_of_assign_props [OF assms(2)] split: option.splits)
qed


subsection \<open>The rebuilt query object\<close>

lemma map_of_fold_obj_set:
  "''__proto__'' \<notin> set ks \<Longrightarrow>
   map_of (fold (\<lambda>i sq. obj_set sq i (f i)) ks acc) k = (if k \<in> set ks then Some (f k) else map_of acc k)"
  by (induction ks arbitrary: acc) (auto simp: map_of_obj_set)

lemma set_keys_fold_obj_set:
  "''__proto__'' \<notin> set ks \<Longrightarrow>
   set (map fst (fold (\<lambda>i sq. obj_set sq i (f i)) ks acc)) = set (map fst acc) \<union> set ks"
proof (induction ks arbitrary: acc)
  case Nil
  show ?case by simp
next
  case (Cons k ks)
  from Cons.prems have ne: "k \<noteq> ''__proto__''" and rest: "''__proto__'' \<notin> set ks" by auto
  show ?case unfolding fold_simps Cons.IH [OF rest] set_keys_obj_set [OF ne] by (simp del: set_map)
qed

lemma distinct_fold_obj_set:
  "distinct (map fst acc) \<Longrightarrow> distinct (map fst (fold (\<lambda>i sq. obj_set sq i (f i)) ks acc))"
  by (induction ks arbitrary: acc) (simp_all add: distinct_obj_set del: set_map)

lemma obj_get_sortedQuery_of:
  assumes "''__proto__'' \<notin> set (map fst query)"
  shows "obj_get (sortedQuery_of query) k = obj_get query k"
proof -
  have np: "''__proto__'' \<notin> set (sort (map fst query))"
    using assms by (simp del: set_map)
  show ?thesis
  proof (cases "map_of query k")
    case None
    then have "k \<notin> set (map fst query)" unfolding key_mem_iff by simp
    then show ?thesis using None
      by (simp add: obj_get_def sortedQuery_of_def map_of_fold_obj_set [OF np] del: set_map)
  next
    case (Some v)
    then have "k \<in> set (map fst query)" unfolding key_mem_iff by simp
    then show ?thesis
      by (simp add: obj_get_def sortedQuery_of_def map_of_fold_obj_set [OF np] del: set_map)
  qed
qed

lemma set_keys_sortedQuery_of:
  assumes "''__proto__'' \<notin> set (map fst query)"
  shows "set (map fst (sortedQuery_of query)) = set (map fst query)"
proof -
  have np: "''__proto__'' \<notin> set (sort (map fst query))"
    using assms by (simp del: set_map)
  show ?thesis
    by (simp add: sortedQuery_of_def set_keys_fold_obj_set [OF np] del: set_map)
qed

lemma distinct_sortedQuery_of: "distinct (map fst (sortedQuery_of query))"
  by (simp add: sortedQuery_of_def distinct_fold_obj_set)

lemma keys_insert_index:
  assumes "map fst obj = I @ N"
    and "list_all is_array_index I"
    and "list_all (\<lambda>k. \<not> is_array_index k) N"
  shows "map fst (insert_index k v obj) = insort_key index_value k I @ N"
  using assms
proof (induction obj arbitrary: I)
  case Nil
  then show ?case by simp
next
  case (Cons p obj)
  obtain k' v' where p: "p = (k', v')" by (cases p)
  show ?case
  proof (cases I)
    case Nil
    with Cons.prems(1) p obtain N' where N: "N = k' # N'" by (cases N) auto
    with Cons.prems(3) have "\<not> is_array_index k'" by simp
    then show ?thesis using Nil Cons.prems(1) by (simp add: p)
  next
    case (Cons i I')
    with Cons.prems(1) p have i: "i = k'" and rest: "map fst obj = I' @ N" by auto
    from Cons.prems(2) Cons have idx: "is_array_index k'" and I': "list_all is_array_index I'"
      by (simp_all add: i)
    have ih: "map fst (insert_index k v obj) = insort_key index_value k I' @ N"
      using Cons.IH [OF rest I' Cons.prems(3)] .
    show ?thesis
      using idx ih rest by (auto simp: p Cons i)
  qed
qed

lemma keys_inv_decomp:
  assumes "keys_inv ks"
  shows "\<exists>I N. ks = I @ N \<and> list_all is_array_index I \<and> list_all (\<lambda>k. \<not> is_array_index k) N
            \<and> sorted (map index_value I)"
proof -
  let ?I = "filter is_array_index ks" and ?N = "filter (\<lambda>k. \<not> is_array_index k) ks"
  have "ks = ?I @ ?N" using assms by (simp add: keys_inv_def)
  moreover have "list_all is_array_index ?I" by (simp add: list_all_iff)
  moreover have "list_all (\<lambda>k. \<not> is_array_index k) ?N" by (simp add: list_all_iff)
  moreover have "sorted (map index_value ?I)" using assms by (simp add: keys_inv_def)
  ultimately show ?thesis by blast
qed

lemma keys_inv_compose:
  assumes "list_all is_array_index I" and "list_all (\<lambda>k. \<not> is_array_index k) N"
    and "sorted (map index_value I)"
  shows "keys_inv (I @ N)"
proof -
  have a: "filter is_array_index I = I" using assms(1) by (simp add: list_all_iff)
  have b: "filter is_array_index N = []" using assms(2) by (simp add: list_all_iff)
  have c: "filter (\<lambda>k. \<not> is_array_index k) I = []" using assms(1) by (simp add: list_all_iff)
  have d: "filter (\<lambda>k. \<not> is_array_index k) N = N" using assms(2) by (simp add: list_all_iff)
  show ?thesis by (simp add: keys_inv_def a b c d assms(3))
qed

lemma keys_obj_set_new:
  assumes inv: "keys_inv (map fst obj)" and new: "k \<notin> set (map fst obj)"
    and ne: "k \<noteq> ''__proto__''"
  shows "keys_inv (map fst (obj_set obj k v))
       \<and> filter (\<lambda>k. \<not> is_array_index k) (map fst (obj_set obj k v)) =
           filter (\<lambda>k. \<not> is_array_index k) (map fst obj @ [k])"
proof -
  obtain I N where d: "map fst obj = I @ N" and I: "list_all is_array_index I"
    and N: "list_all (\<lambda>k. \<not> is_array_index k) N" and s: "sorted (map index_value I)"
    using keys_inv_decomp [OF inv] by blast
  have fN: "filter (\<lambda>k. \<not> is_array_index k) (I @ N) = N"
    using I N by (simp add: list_all_iff)
  show ?thesis
  proof (cases "is_array_index k")
    case True
    have keys: "map fst (obj_set obj k v) = insort_key index_value k I @ N"
      using new ne True keys_insert_index [OF d I N] by (simp add: obj_set_def del: set_map)
    have I': "list_all is_array_index (insort_key index_value k I)"
      using I True by (simp add: list_all_iff set_insort_key)
    have s': "sorted (map index_value (insort_key index_value k I))"
      using s by (simp add: sorted_insort_key)
    have f': "filter (\<lambda>k. \<not> is_array_index k) (insort_key index_value k I @ N) = N"
      using I' N by (simp add: list_all_iff)
    have "filter (\<lambda>k. \<not> is_array_index k) ((I @ N) @ [k]) = N"
      using fN True by simp
    then show ?thesis
      using keys_inv_compose [OF I' N s'] by (simp only: keys d f' simp_thms)
  next
    case False
    have keys: "map fst (obj_set obj k v) = I @ (N @ [k])"
      using new ne False d by (simp add: obj_set_def del: set_map)
    have N': "list_all (\<lambda>k. \<not> is_array_index k) (N @ [k])"
      using N False by simp
    show ?thesis
      using keys_inv_compose [OF I N' s] by (simp add: keys d)
  qed
qed

lemma keys_fold_obj_set:
  assumes "keys_inv (map fst acc)" and "distinct ks" and "set ks \<inter> set (map fst acc) = {}"
    and "''__proto__'' \<notin> set ks"
  shows "keys_inv (map fst (fold (\<lambda>i sq. obj_set sq i (f i)) ks acc))
       \<and> filter (\<lambda>k. \<not> is_array_index k) (map fst (fold (\<lambda>i sq. obj_set sq i (f i)) ks acc)) =
           filter (\<lambda>k. \<not> is_array_index k) (map fst acc @ ks)"
  using assms
proof (induction ks arbitrary: acc)
  case Nil
  then show ?case by simp
next
  case (Cons k ks)
  have new: "k \<notin> set (map fst acc)" using Cons.prems(3) by auto
  from Cons.prems(4) have ne: "k \<noteq> ''__proto__''" and rest: "''__proto__'' \<notin> set ks" by auto
  note step = keys_obj_set_new [OF Cons.prems(1) new ne, of "f k"]
  have disj: "set ks \<inter> set (map fst (obj_set acc k (f k))) = {}"
    unfolding set_keys_obj_set [OF ne] using Cons.prems(2,3) by auto
  have d: "distinct ks" using Cons.prems(2) by simp
  from Cons.IH [OF conjunct1 [OF step] d disj rest] step
  show ?case by simp
qed

lemma keys_sortedQuery_of:
  assumes "distinct (map fst query)" and "''__proto__'' \<notin> set (map fst query)"
  shows "keys_inv (map fst (sortedQuery_of query))
       \<and> filter (\<lambda>k. \<not> is_array_index k) (map fst (sortedQuery_of query)) =
           sort (filter (\<lambda>k. \<not> is_array_index k) (map fst query))"
proof -
  have "keys_inv (map fst ([] :: jsobj))" by (simp add: keys_inv_def)
  moreover have "distinct (sort (map fst query))" using assms(1) by simp
  moreover have "''__proto__'' \<notin> set (sort (map fst query))"
    using assms(2) by (simp del: set_map)
  ultimately show ?thesis
    using keys_fold_obj_set [of "[]" "sort (map fst query)" "obj_get query"]
    by (simp add: sortedQuery_of_def filter_sort)
qed

lemma keys_sortedQuery_of_plain:
  assumes "distinct (map fst query)" and "''__proto__'' \<notin> set (map fst query)"
    and "list_all (\<lambda>k. \<not> is_array_index k) (map fst query)"
  shows "map fst (sortedQuery_of query) = sort (map fst query)"
proof -
  have all: "list_all (\<lambda>k. \<not> is_array_index k) (map fst (sortedQuery_of query))"
    using assms(3) set_keys_sortedQuery_of [OF assms(2)] unfolding list_all_iff by blast
  have "filter (\<lambda>k. \<not> is_array_index k) (map fst (sortedQuery_of query)) = map fst (sortedQuery_of query)"
    using all unfolding list_all_iff by (simp del: set_map)
  moreover have "filter (\<lambda>k. \<not> is_array_index k) (map fst query) = map fst query"
    using assms(3) unfolding list_all_iff by (simp del: set_map)
  ultimately show ?thesis using keys_sortedQuery_of [OF assms(1,2)] by simp
qed

lemma demo_parse_c3: "qs_parse demo_lib (path_pathQuery ''/v1.0/devices?c=3'') = [(''c'', JStr ''3'')]"
  by (simp add: demo_lib_def demo_qs_parse_def path_pathQuery_def assign_props_def obj_set_def
        is_array_index_def is_digit_def)

lemma demo_parse_none: "qs_parse demo_lib (path_pathQuery ''/v1.0/devices'') = []"
  by (simp add: demo_lib_def demo_qs_parse_def path_pathQuery_def)

lemma demo_keys_index: "is_array_index ''9'' \<and> is_array_index ''10'' \<and> index_value ''9'' = 9 \<and> index_value ''10'' = 10
  \<and> \<not> is_array_index ''a'' \<and> \<not> is_array_index ''b'' \<and> \<not> is_array_index ''c''"
  by (simp add: is_array_index_def is_digit_def index_value_def)

lemma demo_sortedQuery_abc: "sortedQuery_of [(''b'', JNum 2), (''a'', JNum 1), (''c'', JStr ''3'')] =
   [(''a'', JNum 1), (''b'', JNum 2), (''c'', JStr ''3'')]"
  by (simp add: sortedQuery_of_def obj_set_def obj_get_def demo_keys_index)

lemma demo_sortedQuery_index: "sortedQuery_of [(''9'', JStr ''y''), (''10'', JStr ''x'')] = [(''9'', JStr ''y''), (''10'', JStr ''x'')]
   \<and> sort [''9'', ''10''] = [''10'', ''9'']"
  by (simp add: sortedQuery_of_def obj_set_def obj_get_def demo_keys_index)

lemma demo_decode: "decodeURIComponent demo_lib s = Inr s"
  by (simp add: demo_lib_def)

lemma demo_querystring_abc:
  "decodeURIComponent demo_lib
     (qs_stringify demo_lib
        (sortedQuery_of (assign_props (objs (state_with [(''b'', JNum 2), (''a'', JNum 1)]) 0)
                           (qs_parse demo_lib (path_pathQuery ''/v1.0/devices?c=3'')))))
   = Inr ''a=1&b=2&c=3''"
proof -
  have m: "assign_props (objs (state_with [(''b'', JNum 2), (''a'', JNum 1)]) 0)
             (qs_parse demo_lib (path_pathQuery ''/v1.0/devices?c=3''))
           = [(''b'', JNum 2), (''a'', JNum 1), (''c'', JStr ''3'')]"
    unfolding demo_parse_c3 by (simp add: state_with_def assign_props_def obj_set_def demo_keys_index)
  have q: "qs_stringify demo_lib (sortedQuery_of [(''b'', JNum 2), (''a'', JNum 1), (''c'', JStr ''3'')])
           = ''a=1&b=2&c=3''"
    unfolding demo_sortedQuery_abc by (simp add: demo_lib_def demo_qs_stringify_def show_int_small)
  show ?thesis unfolding m q by (rule demo_decode)
qed


subsection \<open>The authenticated call\<close>

lemma authenticatedCall_sign_error:
  assumes "fst (getRequestSign L W creds endpoint method (Some []) query body st) = Inl e"
  shows "authenticatedCall L W creds method endpoint query body st =
           (Inl e, snd (getRequestSign L W creds endpoint method (Some []) query body st))"
  using assms unfolding authenticatedCall_def
  by (cases "getRequestSign L W creds endpoint method (Some []) query body st") simp

lemma envelope_check_bool:
  assumes "get_own envelope ''success'' = JBool b"
  shows "envelope_check envelope =
           (if b then Inr envelope
            else Inl (new_Error (''Error message: '' @ to_string (get_own envelope ''msg'') @
                                 ''. Error code: '' @ to_string (get_own envelope ''code''))))"
  using get_own_JBool_obj [OF assms] by (simp add: envelope_check_def)

lemma error_toString_new_Error: "error_toString (new_Error msg) = (if msg = [] then ''Error'' else ''Error: '' @ msg)"
  by (simp add: error_toString_def new_Error_def)

lemma try_block_objs: "objs (snd (try_block W req st)) = objs st"
  by (simp add: try_block_def Let_def emit_def split: sum.splits)

lemma authenticatedCall_objs:
  "objs (snd (authenticatedCall L W creds method endpoint query body st)) =
   objs (snd (getRequestSign L W creds endpoint method (Some []) query body st))"
proof (cases "getRequestSign L W creds endpoint method (Some []) query body st")
  case (Pair r st1)
  show ?thesis
  proof (cases r)
    case (Inl e)
    then show ?thesis by (simp add: authenticatedCall_def Pair)
  next
    case (Inr h)
    then show ?thesis
      using try_block_objs [of W "call_request creds method endpoint h body" st1]
      by (cases "try_block W (call_request creds method endpoint h body) st1")
         (simp add: authenticatedCall_def Pair)
  qed
qed

lemma authenticatedCall_not_ok:
  assumes sign: "getRequestSign L W creds endpoint method (Some []) query body st = (Inr reqHeaders, st1)"
    and fetch: "fetch W (call_request creds method endpoint reqHeaders body) = Inr resp"
    and bad: "\<not> resp_ok resp"
  shows "authenticatedCall L W creds method endpoint query body st =
           (Inl (new_Error (''Error: HTTP Error. Status '' @ show_nat (resp_status resp))),
            emit (Fetch (call_request creds method endpoint reqHeaders body)) st1)"
  by (simp add: authenticatedCall_def sign try_block_def Let_def fetch bad catch_rethrow_def
        error_toString_new_Error)

lemma authenticatedCall_parsed:
  assumes sign: "getRequestSign L W creds endpoint method (Some []) query body st = (Inr reqHeaders, st1)"
    and fetch: "fetch W (call_request creds method endpoint reqHeaders body) = Inr resp"
    and ok: "resp_ok resp"
    and json: "resp_json resp = Inr envelope"
  shows "authenticatedCall L W creds method endpoint query body st =
           (catch_rethrow (envelope_check envelope),
            emit (ReadJson resp) (emit (Fetch (call_request creds method endpoint reqHeaders body)) st1))"
  by (simp add: authenticatedCall_def sign try_block_def Let_def fetch ok json)

lemma demo_fetch_call:
  "fetch (demo_world a b) (call_request demo_creds method (''/v1.0/devices/'' @ rest) h body) = b"
  by (simp add: demo_world_def call_request_def demo_creds_def)

lemma demo_sign_None:
  "\<exists>h st1. getRequestSign demo_lib (demo_world token_ok b) demo_creds (''/v1.0/devices/'' @ rest) method (Some []) None body st0
            = (Inr h, st1)"
proof -
  show ?thesis
    unfolding getRequestSign_None
    using getRequestSign_Some_run [OF demo_getToken_ok demo_decode]
    by blast
qed

lemma turnOnOff_sign_error:
  assumes "fst (getToken L W creds (snd (alloc [] st))) = Inl e"
  shows "turnOnOff L W creds deviceId onOff st = (Inl e, snd (getToken L W creds (snd (alloc [] st))))"
proof -
  let ?st1 = "snd (alloc [] st)"
  let ?ep = "''/v1.0/devices/'' @ deviceId @ ''/commands''"
  let ?body = "Some [(''commands'', JStr (JSON_stringify_arr [JObj [(''code'', JStr ''switch_led''), (''value'', JBool onOff)]]))]"
  have sign: "getRequestSign L W creds ?ep ''POST'' (Some []) (Some (next_ref st)) ?body ?st1
              = (Inl e, snd (getToken L W creds ?st1))"
    using assms by (rule getRequestSign_token_error)
  have call: "authenticatedCall L W creds ''POST'' ?ep (Some (next_ref st)) ?body ?st1
              = (Inl e, snd (getToken L W creds ?st1))"
    using authenticatedCall_sign_error [where st = "?st1" and e = e and L = L and W = W and creds = creds
        and endpoint = "?ep" and query = "Some (next_ref st)" and body = "?body"] sign
    by simp
  show ?thesis
    using call by (simp add: turnOnOff_def Let_def alloc_def)
qed

lemma turnOnOff_not_ok:
  assumes sign: "getRequestSign L W creds (''/v1.0/devices/'' @ deviceId @ ''/commands'') ''POST'' (Some []) None
                   (Some [(''commands'', JStr (JSON_stringify_arr [JObj [(''code'', JStr ''switch_led''), (''value'', JBool onOff)]]))]) st
                 = (Inr reqHeaders, st1)"
    and fetch: "fetch W (call_request creds ''POST'' (''/v1.0/devices/'' @ deviceId @ ''/commands'') reqHeaders
                   (Some [(''commands'', JStr (JSON_stringify_arr [JObj [(''code'', JStr ''switch_led''), (''value'', JBool onOff)]]))]))
                 = Inr resp"
    and bad: "\<not> resp_ok resp"
  shows "fst (turnOnOff L W creds deviceId onOff st) =
           Inl (new_Error (''Error: HTTP Error. Status '' @ show_nat (resp_status resp)))"
proof -
  let ?st1 = "snd (alloc [] st)"
  let ?ep = "''/v1.0/devices/'' @ deviceId @ ''/commands''"
  let ?body = "Some [(''commands'', JStr (JSON_stringify_arr [JObj [(''code'', JStr ''switch_led''), (''value'', JBool onOff)]]))]"
  have sign': "getRequestSign L W creds ?ep ''POST'' (Some []) (Some (next_ref st)) ?body ?st1 = (Inr reqHeaders, st1)"
    using sign unfolding getRequestSign_None .
  have call: "authenticatedCall L W creds ''POST'' ?ep (Some (next_ref st)) ?body ?st1 =
           (Inl (new_Error (''Error: HTTP Error. Status '' @ show_nat (resp_status resp))),
            emit (Fetch (call_request creds ''POST'' ?ep reqHeaders ?body)) st1)"
    using sign' fetch bad by (rule authenticatedCall_not_ok)
  show ?thesis
    using call by (simp add: turnOnOff_def Let_def alloc_def)
qed

lemma demo_status_call:
  assumes "get_own envelope ''success'' = JBool True"
  shows "\<exists>st1. authenticatedCall demo_lib (demo_world token_ok (json_response 200 envelope)) demo_creds
                 ''GET'' (''/v1.0/devices/'' @ deviceId @ ''/status'') None None st0 = (Inr envelope, st1)"
proof -
  let ?W = "demo_world token_ok (json_response 200 envelope)"
  let ?ep = "''/v1.0/devices/'' @ deviceId @ ''/status''"
  obtain h st1 where s: "getRequestSign demo_lib ?W demo_creds ?ep ''GET'' (Some []) None None st0 = (Inr h, st1)"
    using demo_sign_None [of "json_response 200 envelope" "deviceId @ ''/status''" "''GET''" None] by auto
  have f: "fetch ?W (call_request demo_creds ''GET'' ?ep h None) = Inr \<lparr>resp_status = 200, resp_json = Inr envelope\<rparr>"
    using demo_fetch_call [of token_ok "json_response 200 envelope" "''GET''" "deviceId @ ''/status''" h None]
    by (simp add: json_response_def)
  have ok: "resp_ok \<lparr>resp_status = 200, resp_json = Inr envelope\<rparr>" by (simp add: resp_ok_def)
  have j: "resp_json \<lparr>resp_status = 200, resp_json = Inr envelope\<rparr> = Inr envelope" by simp
  show ?thesis
    using authenticatedCall_parsed [OF s f ok j]
    by (simp add: envelope_check_bool [OF assms] catch_rethrow_def)
qed


subsection \<open>Decoding the device status\<close>

lemma assign_props_single: "assign_props status [(k, v)] = obj_set status k v"
  by (simp add: assign_props_def)

lemma status_step_pair:
  "status_step L (status_pair c v) status =
     (case map_of code_field c of
        None \<Rightarrow> Inr status
      | Some f \<Rightarrow> (case field_value L c v of Inl e \<Rightarrow> Inl e | Inr x \<Rightarrow> Inr (obj_set status f x)))"
  by (simp add: status_step_def status_pair_def get_prop_def get_own_def obj_get_def code_field_def
        field_value_def assign_props_single split: sum.splits)

lemma status_forEach_append:
  "status_forEach L (xs @ ys) status =
     (case status_forEach L xs status of Inl e \<Rightarrow> Inl e | Inr status' \<Rightarrow> status_forEach L ys status')"
  by (induction xs arbitrary: status) (auto split: sum.splits)

lemma status_forEach_ignore:
  "status_forEach L (map (\<lambda>(c, v). status_pair c v) ps) status =
   status_forEach L (map (\<lambda>(c, v). status_pair c v) (filter (\<lambda>(c, v). c \<in> set (map fst code_field)) ps)) status"
proof (induction ps arbitrary: status)
  case Nil
  show ?case by simp
next
  case (Cons p ps)
  obtain c v where p: "p = (c, v)" by (cases p)
  show ?case
  proof (cases "map_of code_field c")
    case None
    then have "c \<notin> set (map fst code_field)" unfolding key_mem_iff by simp
    then show ?thesis using None Cons.IH by (simp add: p status_step_pair del: set_map)
  next
    case (Some f)
    then have "c \<in> set (map fst code_field)" unfolding key_mem_iff by simp
    then show ?thesis using Some Cons.IH by (simp add: p status_step_pair del: set_map split: sum.splits)
  qed
qed

lemma code_field_not_proto: "map_of code_field c = Some f \<Longrightarrow> f \<noteq> ''__proto__''"
  by (auto simp: code_field_def split: if_splits)

lemma status_step_keys:
  assumes "status_step L (status_pair c v) status = Inr status'"
  shows "set (map fst status') \<subseteq> set (map fst status) \<union> set (map snd code_field)"
proof (cases "map_of code_field c")
  case None
  with assms have "status' = status" by (simp add: status_step_pair)
  then show ?thesis by (simp del: set_map)
next
  case (Some f)
  then have "(c, f) \<in> set code_field" by (rule map_of_SomeD)
  then have f: "f \<in> set (map snd code_field)" by force
  from assms Some have "\<exists>x. status' = obj_set status f x"
    by (cases "field_value L c v") (auto simp: status_step_pair)
  then obtain x where "status' = obj_set status f x" ..
  then have k: "set (map fst status') = insert f (set (map fst status))"
    by (simp only: set_keys_obj_set [OF code_field_not_proto [OF Some]])
  show ?thesis unfolding k using f by (simp del: set_map)
qed

lemma status_forEach_keys:
  assumes "status_forEach L (map (\<lambda>(c, v). status_pair c v) ps) status = Inr status'"
  shows "set (map fst status') \<subseteq> set (map fst status) \<union> set (map snd code_field)"
  using assms
proof (induction ps arbitrary: status)
  case Nil
  then show ?case by simp
next
  case (Cons p ps)
  obtain c v where p: "p = (c, v)" by (cases p)
  from Cons.prems obtain s1 where s1: "status_step L (status_pair c v) status = Inr s1"
    and rest: "status_forEach L (map (\<lambda>(c, v). status_pair c v) ps) s1 = Inr status'"
    by (auto simp: p split: sum.splits)
  have a: "set (map fst status') \<subseteq> set (map fst s1) \<union> set (map snd code_field)"
    by (rule Cons.IH [OF rest])
  have b: "set (map fst s1) \<subseteq> set (map fst status) \<union> set (map snd code_field)"
    by (rule status_step_keys [OF s1])
  show ?case
  proof
    fix k assume "k \<in> set (map fst status')"
    with a have "k \<in> set (map fst s1) \<or> k \<in> set (map snd code_field)" by (simp only: subset_iff Un_iff)
    with b show "k \<in> set (map fst status) \<union> set (map snd code_field)" by (auto simp only: subset_iff Un_iff)
  qed
qed

lemma find_snoc:
  "find P (xs @ [x]) = (case find P xs of None \<Rightarrow> (if P x then Some x else None) | Some y \<Rightarrow> Some y)"
  by (induction xs) auto

lemma last_value_Cons:
  "last_value code ((c, v) # ps) =
     (case last_value code ps of None \<Rightarrow> (if c = code then Some v else None) | Some w \<Rightarrow> Some w)"
  by (simp add: last_value_def find_snoc split: option.splits)

lemma last_value_None_iff: "last_value code ps = None \<longleftrightarrow> code \<notin> set (map fst ps)"
proof (induction ps)
  case Nil
  show ?case by (simp add: last_value_def)
next
  case (Cons p ps)
  obtain c v where p: "p = (c, v)" by (cases p)
  show ?case
    using Cons.IH by (cases "last_value code ps") (auto simp: p last_value_Cons simp del: set_map)
qed

lemma code_field_inj:
  "map_of code_field c = Some f \<Longrightarrow> map_of code_field c' = Some f \<Longrightarrow> c' = c"
  by (auto simp: code_field_def split: if_splits)

lemma status_forEach_field:
  assumes "status_forEach L (map (\<lambda>(c, v). status_pair c v) ps) status0 = Inr status"
    and "map_of code_field code = Some f"
  shows "map_of status f =
           (case last_value code ps of
              None \<Rightarrow> map_of status0 f
            | Some v \<Rightarrow> (case field_value L code v of Inl e \<Rightarrow> None | Inr x \<Rightarrow> Some x))"
  using assms(1)
proof (induction ps arbitrary: status0)
  case Nil
  then show ?case by (simp add: last_value_def)
next
  case (Cons p ps)
  obtain c v where p: "p = (c, v)" by (cases p)
  from Cons.prems obtain s1 where s1: "status_step L (status_pair c v) status0 = Inr s1"
    and rest: "status_forEach L (map (\<lambda>(c, v). status_pair c v) ps) s1 = Inr status"
    by (auto simp: p split: sum.splits)
  note ih = Cons.IH [OF rest]
  show ?case
  proof (cases "last_value code ps")
    case (Some w)
    then show ?thesis using ih by (simp add: p last_value_Cons)
  next
    case None
    have "map_of s1 f = (if c = code then (case field_value L code v of Inl e \<Rightarrow> None | Inr x \<Rightarrow> Some x)
                         else map_of status0 f)"
    proof (cases "map_of code_field c")
      case None
      then have "c \<noteq> code" using assms(2) by auto
      moreover have "s1 = status0" using s1 None by (simp add: status_step_pair)
      ultimately show ?thesis by simp
    next
      case (Some g)
      from s1 Some obtain x where fv: "field_value L c v = Inr x" and s1': "s1 = obj_set status0 g x"
        by (cases "field_value L c v") (auto simp: status_step_pair)
      note set_g = map_of_obj_set [OF code_field_not_proto [OF Some]]
      show ?thesis
      proof (cases "c = code")
        case True
        then have "g = f" using Some assms(2) by simp
        then show ?thesis using True fv
          by (simp add: s1' map_of_obj_set [OF code_field_not_proto [OF assms(2)]])
      next
        case False
        then have "g \<noteq> f" using code_field_inj [OF assms(2), of c] Some by auto
        then show ?thesis using False by (simp add: s1' set_g)
      qed
    qed
    then show ?thesis using ih None by (simp add: p last_value_Cons)
  qed
qed

lemma status_forEach_parsed:
  assumes "status_forEach L (map (\<lambda>(c, v). status_pair c v) ps) status0 = Inr status"
    and "(c, v) \<in> set ps"
  shows "\<exists>x. field_value L c v = Inr x"
  using assms
proof (induction ps arbitrary: status0)
  case Nil
  then show ?case by simp
next
  case (Cons p ps)
  obtain c' v' where p: "p = (c', v')" by (cases p)
  from Cons.prems(1) obtain s1 where s1: "status_step L (status_pair c' v') status0 = Inr s1"
    and rest: "status_forEach L (map (\<lambda>(c, v). status_pair c v) ps) s1 = Inr status"
    by (auto simp: p split: sum.splits)
  show ?case
  proof (cases "(c, v) = (c', v')")
    case True
    show ?thesis
    proof (cases "c = ''colour_data_v2''")
      case True
      with s1 \<open>(c, v) = (c', v')\<close> show ?thesis
        by (cases "field_value L c v") (auto simp: status_step_pair code_field_def)
    next
      case False
      then show ?thesis by (simp add: field_value_def)
    qed
  next
    case False
    with Cons.prems(2) have "(c, v) \<in> set ps" by (auto simp: p)
    then show ?thesis using Cons.IH [OF rest] by simp
  qed
qed

lemma find_Some_mem: "find P xs = Some x \<Longrightarrow> x \<in> set xs \<and> P x"
  by (induction xs) (auto split: if_splits)

lemma last_value_mem: "last_value code ps = Some v \<Longrightarrow> (code, v) \<in> set ps"
proof -
  assume "last_value code ps = Some v"
  then obtain q where q: "find (\<lambda>(c, v). c = code) (rev ps) = Some q" and v: "snd q = v"
    by (auto simp: last_value_def)
  from q have "q \<in> set (rev ps) \<and> fst q = code"
    using find_Some_mem [OF q] by (auto split: prod.splits)
  then show ?thesis using v by (cases q) auto
qed

lemma getDeviceStatus_decodes:
  assumes "authenticatedCall L W creds ''GET'' (''/v1.0/devices/'' @ deviceId @ ''/status'') None None st = (Inr envelope, st1)"
    and "get_own envelope ''result'' = JArr cs"
  shows "getDeviceStatus L W creds deviceId st = (decode_status L (JArr cs), st1)"
proof -
  have "get_prop envelope ''result'' = Inr (JArr cs)"
    using assms(2) by (cases envelope) (simp_all add: get_own_def get_prop_def)
  then show ?thesis using assms(1) by (simp add: getDeviceStatus_def Let_def)
qed

lemma example_colour_text_eq:
  "example_colour_text = JSON_stringify_obj [(''h'', JNum 10), (''s'', JNum 500), (''v'', JNum 800)]"
proof -
  have "show_int 10 = ''10''" "show_int 500 = ''500''" "show_int 800 = ''800''"
    by (simp_all add: show_int_def show_nat.simps digit_char_def)
  then show ?thesis
    by (simp add: example_colour_text_def JSON_stringify_obj_def json_quote_def json_escape_char_def)
qed


subsection \<open>Room names\<close>

lemma is_space_lower_char: "is_space (lower_char c) = is_space c"
proof -
  have "of_char (lower_char c) = (of_char c :: nat) \<or> (of_char (lower_char c) :: nat) = of_char c + 32 \<and>
        ((65 \<le> (of_char c :: nat) \<and> (of_char c :: nat) \<le> 90) \<or> (192 \<le> (of_char c :: nat) \<and> (of_char c :: nat) \<le> 222))"
    by (auto simp: lower_char_def Let_def)
  then show ?thesis
    by (auto simp: is_space_def)
qed

lemma filter_not_dropWhile: "filter (\<lambda>c. \<not> P c) (dropWhile P xs) = filter (\<lambda>c. \<not> P c) xs"
  by (induction xs) auto

lemma filter_not_trim: "filter (\<lambda>c. \<not> is_space c) (trim s) = filter (\<lambda>c. \<not> is_space c) s"
proof -
  have "filter (\<lambda>c. \<not> is_space c) (trim s) = rev (filter (\<lambda>c. \<not> is_space c) (dropWhile is_space (rev (dropWhile is_space s))))"
    by (simp add: trim_def rev_filter)
  also have "\<dots> = rev (filter (\<lambda>c. \<not> is_space c) (rev (dropWhile is_space s)))"
    by (simp only: filter_not_dropWhile)
  also have "\<dots> = filter (\<lambda>c. \<not> is_space c) (dropWhile is_space s)"
    by (simp add: rev_filter)
  also have "\<dots> = filter (\<lambda>c. \<not> is_space c) s"
    by (simp only: filter_not_dropWhile)
  finally show ?thesis .
qed

lemma normalize_roomName_eq:
  "normalize_roomName roomName = map lower_char (filter (\<lambda>c. \<not> is_space c) roomName)"
proof -
  have "normalize_roomName roomName = map lower_char (filter (\<lambda>c. \<not> is_space c) (trim roomName))"
    by (simp add: normalize_roomName_def toLowerCase_def filter_map comp_def is_space_lower_char)
  then show ?thesis by (simp only: filter_not_trim)
qed

lemma normalize_living_room: "normalize_roomName ''Living Room '' = ''livingroom''"
  by (simp add: normalize_roomName_eq is_space_def lower_char_def char_of_def bit_Suc_0_iff)

lemma getDeviceId_table:
  "getDeviceId ''bedroom'' e = JSON_stringify (BEDROOM_DEVICE_ID e)
   \<and> getDeviceId ''livingroom'' e = JSON_stringify (LIVINGROOM_DEVICE_ID e)
   \<and> getDeviceId ''diningroom'' e = JSON_stringify (DINNING_DEVICE_ID e)
   \<and> getDeviceId ''kitchen'' e = JSON_stringify (KITCHEN_DEVICE_ID e)"
  by (simp add: getDeviceId_def get_member_def)

lemma getDeviceId_other:
  assumes "name \<notin> {''bedroom'', ''livingroom'', ''diningroom'', ''kitchen'', ''__proto__''}"
  shows "getDeviceId name e = None"
  using assms
  by (auto simp: getDeviceId_def get_member_def object_prototype_get_def JSON_stringify_def)

lemma getDeviceId_proto: "getDeviceId ''__proto__'' e = Some ''{}''"
  by (simp add: getDeviceId_def get_member_def object_prototype_get_def JSON_stringify_def)


section \<open>The claims\<close>

subsection \<open>C1: the outcomes of an authenticated call\<close>

text \<open>
  C1, as the program has it. Once the request is signed and \<^verbatim>\<open>fetch\<close> has answered:
  when the status is outside 200-299, \<^verbatim>\<open>authenticatedCall\<close> fails with an
  \<^verbatim>\<open>Error\<close> whose message is \<^verbatim>\<open>Error: HTTP Error. Status\<close> followed by the
  status, and the trace ends with the request: the body is never read as JSON. When
  the status is 2xx and the body parses to an envelope whose \<^verbatim>\<open>success\<close> is a
  boolean, the call fails exactly when it is \<^verbatim>\<open>false\<close>, with an \<^verbatim>\<open>Error\<close> whose
  message is \<^verbatim>\<open>Error: Error message: <msg>. Error code: <code>\<close>, and otherwise
  returns the envelope. Both failures are objects of the one class \<^verbatim>\<open>Error\<close>; what
  tells them apart is the text of the message, which always differs and which carries
  the status, or the message and the code.
\<close>

theorem authenticatedCall_outcomes:
  assumes sign: "getRequestSign L W creds endpoint method (Some []) query body st = (Inr reqHeaders, st1)"
    and fetch: "fetch W (call_request creds method endpoint reqHeaders body) = Inr resp"
  shows "(\<not> resp_ok resp \<longrightarrow>
            authenticatedCall L W creds method endpoint query body st =
              (Inl (new_Error (''Error: HTTP Error. Status '' @ show_nat (resp_status resp))),
               emit (Fetch (call_request creds method endpoint reqHeaders body)) st1))
       \<and> (resp_ok resp \<and> resp_json resp = Inr envelope \<and> get_own envelope ''success'' = JBool False \<longrightarrow>
            authenticatedCall L W creds method endpoint query body st =
              (Inl (new_Error (''Error: Error message: '' @ to_string (get_own envelope ''msg'') @
                               ''. Error code: '' @ to_string (get_own envelope ''code''))),
               emit (ReadJson resp) (emit (Fetch (call_request creds method endpoint reqHeaders body)) st1)))
       \<and> (resp_ok resp \<and> resp_json resp = Inr envelope \<and> get_own envelope ''success'' = JBool True \<longrightarrow>
            authenticatedCall L W creds method endpoint query body st =
              (Inr envelope,
               emit (ReadJson resp) (emit (Fetch (call_request creds method endpoint reqHeaders body)) st1)))
       \<and> (\<not> resp_ok resp \<longrightarrow>
            events (snd (authenticatedCall L W creds method endpoint query body st)) =
              events st1 @ [Fetch (call_request creds method endpoint reqHeaders body)])
       \<and> err_name (new_Error x) = ''Error''
       \<and> ''Error: HTTP Error. Status '' @ y \<noteq> ''Error: Error message: '' @ z"
proof -
  let ?req = "call_request creds method endpoint reqHeaders body"
  have call: "authenticatedCall L W creds method endpoint query body st =
      (case try_block W ?req st1 of (r, st2) \<Rightarrow> (catch_rethrow r, st2))"
    by (simp add: authenticatedCall_def sign)
  have bad: "\<not> resp_ok resp \<Longrightarrow> try_block W ?req st1 =
      (Inl (new_Error (''HTTP Error. Status '' @ show_nat (resp_status resp))), emit (Fetch ?req) st1)"
    by (simp add: try_block_def Let_def fetch)
  have good: "resp_ok resp \<Longrightarrow> resp_json resp = Inr envelope \<Longrightarrow> try_block W ?req st1 =
      (envelope_check envelope, emit (ReadJson resp) (emit (Fetch ?req) st1))"
    by (simp add: try_block_def Let_def fetch)
  have name: "err_name (new_Error x) = ''Error''"
    by (simp add: new_Error_def)
  show ?thesis
    by (auto simp: call bad good envelope_check_bool [of _ False] envelope_check_bool [of _ True]
          catch_rethrow_def error_toString_new_Error emit_def name)
qed

text \<open>
  C1, the theorem at work: a 404 on the status endpoint, and a successful envelope.
\<close>

theorem authenticatedCall_outcomes_witness:
  "fst (authenticatedCall demo_lib (demo_world token_ok (json_response 404 JNull)) demo_creds
          ''GET'' ''/v1.0/devices/d1/status'' None None st0)
     = Inl (new_Error ''Error: HTTP Error. Status 404'')
   \<and> fst (authenticatedCall demo_lib
            (demo_world token_ok (json_response 200 (JObj [(''result'', JArr []), (''success'', JBool True)])))
            demo_creds ''GET'' ''/v1.0/devices/d1/status'' None None st0)
     = Inr (JObj [(''result'', JArr []), (''success'', JBool True)])"
proof -
  let ?ep = "''/v1.0/devices/d1/status''"
  let ?env = "JObj [(''result'', JArr []), (''success'', JBool True)]"
  obtain h st1 where s1: "getRequestSign demo_lib (demo_world token_ok (json_response 404 JNull)) demo_creds
      ?ep ''GET'' (Some []) None None st0 = (Inr h, st1)"
    using demo_sign_None [of "json_response 404 JNull" "''d1/status''" "''GET''" None] by auto
  have f1: "fetch (demo_world token_ok (json_response 404 JNull)) (call_request demo_creds ''GET'' ?ep h None)
      = Inr \<lparr>resp_status = 404, resp_json = Inr JNull\<rparr>"
    using demo_fetch_call [of token_ok "json_response 404 JNull" "''GET''" "''d1/status''" h None]
    by (simp add: json_response_def)
  have n404: "show_nat 404 = ''404''" by (simp add: show_nat.simps digit_char_def)
  have a: "fst (authenticatedCall demo_lib (demo_world token_ok (json_response 404 JNull)) demo_creds
          ''GET'' ?ep None None st0) = Inl (new_Error ''Error: HTTP Error. Status 404'')"
    using authenticatedCall_outcomes [OF s1 f1] by (simp add: resp_ok_def n404)
  obtain h' st1' where s2: "getRequestSign demo_lib (demo_world token_ok (json_response 200 ?env)) demo_creds
      ?ep ''GET'' (Some []) None None st0 = (Inr h', st1')"
    using demo_sign_None [of "json_response 200 ?env" "''d1/status''" "''GET''" None] by auto
  have f2: "fetch (demo_world token_ok (json_response 200 ?env)) (call_request demo_creds ''GET'' ?ep h' None)
      = Inr \<lparr>resp_status = 200, resp_json = Inr ?env\<rparr>"
    using demo_fetch_call [of token_ok "json_response 200 ?env" "''GET''" "''d1/status''" h' None]
    by (simp add: json_response_def)
  have b: "fst (authenticatedCall demo_lib (demo_world token_ok (json_response 200 ?env)) demo_creds
          ''GET'' ?ep None None st0) = Inr ?env"
    using authenticatedCall_outcomes [OF s2 f2, of ?env]
    by (simp add: resp_ok_def get_own_def obj_get_def)
  show ?thesis using a b by simp
qed

text \<open>
  C1 as stated fails: an HTTP 500 and a platform failure (\<^verbatim>\<open>success: false\<close>, code
  2001) are both thrown as a plain \<^verbatim>\<open>Error\<close>, with the same name; neither is a
  typed \<^verbatim>\<open>HttpError\<close> or \<^verbatim>\<open>ApiError\<close> value, and only their message strings
  differ.
\<close>

theorem authenticatedCall_errors_same_kind:
  "fst (authenticatedCall demo_lib (demo_world token_ok (json_response 500 JNull)) demo_creds
          ''POST'' ''/v1.0/devices/d1/commands'' None None st0)
     = Inl (JSError ''Error'' ''Error: HTTP Error. Status 500'')
   \<and> fst (authenticatedCall demo_lib
            (demo_world token_ok
               (json_response 200
                  (JObj [(''code'', JNum 2001), (''msg'', JStr ''device is offline''), (''success'', JBool False)])))
            demo_creds ''POST'' ''/v1.0/devices/d1/commands'' None None st0)
     = Inl (JSError ''Error'' ''Error: Error message: device is offline. Error code: 2001'')"
proof -
  let ?ep = "''/v1.0/devices/d1/commands''"
  let ?env = "JObj [(''code'', JNum 2001), (''msg'', JStr ''device is offline''), (''success'', JBool False)]"
  obtain h st1 where s1: "getRequestSign demo_lib (demo_world token_ok (json_response 500 JNull)) demo_creds
      ?ep ''POST'' (Some []) None None st0 = (Inr h, st1)"
    using demo_sign_None [of "json_response 500 JNull" "''d1/commands''" "''POST''" None] by auto
  have f1: "fetch (demo_world token_ok (json_response 500 JNull)) (call_request demo_creds ''POST'' ?ep h None)
      = Inr \<lparr>resp_status = 500, resp_json = Inr JNull\<rparr>"
    using demo_fetch_call [of token_ok "json_response 500 JNull" "''POST''" "''d1/commands''" h None]
    by (simp add: json_response_def)
  have a: "fst (authenticatedCall demo_lib (demo_world token_ok (json_response 500 JNull)) demo_creds
          ''POST'' ?ep None None st0) = Inl (JSError ''Error'' ''Error: HTTP Error. Status 500'')"
    using authenticatedCall_not_ok [OF s1 f1] by (simp add: resp_ok_def show_nat_500 new_Error_def)
  obtain h' st1' where s2: "getRequestSign demo_lib (demo_world token_ok (json_response 200 ?env)) demo_creds
      ?ep ''POST'' (Some []) None None st0 = (Inr h', st1')"
    using demo_sign_None [of "json_response 200 ?env" "''d1/commands''" "''POST''" None] by auto
  have f2: "fetch (demo_world token_ok (json_response 200 ?env)) (call_request demo_creds ''POST'' ?ep h' None)
      = Inr \<lparr>resp_status = 200, resp_json = Inr ?env\<rparr>"
    using demo_fetch_call [of token_ok "json_response 200 ?env" "''POST''" "''d1/commands''" h' None]
    by (simp add: json_response_def)
  have b: "fst (authenticatedCall demo_lib (demo_world token_ok (json_response 200 ?env)) demo_creds
          ''POST'' ?ep None None st0)
     = Inl (JSError ''Error'' ''Error: Error message: device is offline. Error code: 2001'')"
    using authenticatedCall_parsed [OF s2 f2]
    by (simp add: resp_ok_def envelope_check_def get_prop_def get_own_def obj_get_def
          catch_rethrow_def error_toString_def show_int_2001 new_Error_def)
  show ?thesis using a b by simp
qed

subsection \<open>C2: the canonical URL\<close>

text \<open>
  C2, as the program has it. When \<^verbatim>\<open>getRequestSign\<close> returns for an explicit query
  object (with distinct keys; neither it nor the path's query has the key
  \<^verbatim>\<open>__proto__\<close>, which an assignment would not create): that object now holds the
  explicit query merged with the path's query, the path's values over the explicit ones; the \<^verbatim>\<open>path\<close> header
  is the uri (the path up to its first question mark) when the rebuilt query string is
  empty and the uri, a question mark and the query string otherwise; the query string
  is built from an object that has exactly the merged keys, each with its value in the
  \<^emph>\<open>merged\<close> object (so a key that only the path has keeps the path's value); its keys
  that are not array indices come in ascending code-unit order, after the keys that are
  array indices, which come in ascending numeric order; when no key is an array index
  the keys are exactly the sorted merged keys.
\<close>

theorem getRequestSign_canonical_url:
  assumes ok: "getRequestSign L W creds path method hdrs (Some r) body st = (Inr h, st')"
    and wf: "distinct (map fst (objs st r))"
    and np: "''__proto__'' \<notin> set (map fst (objs st r))"
    and npp: "''__proto__'' \<notin> set (map fst (qs_parse L (path_pathQuery path)))"
  shows "objs st' r = assign_props (objs st r) (qs_parse L (path_pathQuery path))
       \<and> (\<exists>querystring.
             decodeURIComponent L (qs_stringify L (sortedQuery_of (objs st' r))) = Inr querystring
             \<and> obj_get h ''path'' =
                 JStr (if querystring = [] then path_uri path else path_uri path @ ''?'' @ querystring))
       \<and> path_uri path = takeWhile (\<lambda>c. c \<noteq> CHR ''?'') path
       \<and> (\<forall>k. obj_get (sortedQuery_of (objs st' r)) k = obj_get (objs st' r) k)
       \<and> set (map fst (sortedQuery_of (objs st' r))) =
           set (map fst (objs st r)) \<union> set (map fst (qs_parse L (path_pathQuery path)))
       \<and> filter (\<lambda>k. \<not> is_array_index k) (map fst (sortedQuery_of (objs st' r))) =
           sort (filter (\<lambda>k. \<not> is_array_index k) (map fst (objs st' r)))
       \<and> map fst (sortedQuery_of (objs st' r)) =
           filter is_array_index (map fst (sortedQuery_of (objs st' r))) @
           filter (\<lambda>k. \<not> is_array_index k) (map fst (sortedQuery_of (objs st' r)))
       \<and> sorted (map index_value (filter is_array_index (map fst (sortedQuery_of (objs st' r)))))
       \<and> (list_all (\<lambda>k. \<not> is_array_index k) (map fst (objs st' r)) \<longrightarrow>
            map fst (sortedQuery_of (objs st' r)) = sort (map fst (objs st' r)))"
proof -
  from ok obtain token st2 querystring where
    tok: "getToken L W creds st = (Inr token, st2)"
    and st': "st' = Object_assign r (qs_parse L (path_pathQuery path)) st2"
    and dec: "decodeURIComponent L (qs_stringify L (sortedQuery_of (objs st' r))) = Inr querystring"
    and h: "obj_get h ''path'' = JStr (if querystring \<noteq> [] then path_uri path @ ''?'' @ querystring else path_uri path)"
    by (rule getRequestSign_Some_okE)
  have o2: "objs st2 = objs st" using getToken_state [of L W creds st] tok by simp
  have merged: "objs st' r = assign_props (objs st r) (qs_parse L (path_pathQuery path))"
    by (simp add: st' Object_assign_def o2)
  have url: "\<exists>querystring.
             decodeURIComponent L (qs_stringify L (sortedQuery_of (objs st' r))) = Inr querystring
             \<and> obj_get h ''path'' =
                 JStr (if querystring = [] then path_uri path else path_uri path @ ''?'' @ querystring)"
    using dec h by auto
  have d: "distinct (map fst (objs st' r))"
    unfolding merged using wf by (rule distinct_assign_props)
  have mkeys: "set (map fst (objs st' r)) =
           set (map fst (objs st r)) \<union> set (map fst (qs_parse L (path_pathQuery path)))"
    unfolding merged using npp by (rule set_keys_assign_props)
  have nm: "''__proto__'' \<notin> set (map fst (objs st' r))"
    unfolding mkeys using np npp by blast
  note k = keys_sortedQuery_of [OF d nm]
  have inv: "keys_inv (map fst (sortedQuery_of (objs st' r)))" using k by blast
  have keys: "set (map fst (sortedQuery_of (objs st' r))) =
           set (map fst (objs st r)) \<union> set (map fst (qs_parse L (path_pathQuery path)))"
    unfolding set_keys_sortedQuery_of [OF nm] by (rule mkeys)
  show ?thesis
    apply (intro conjI allI impI)
            apply (rule merged)
           apply (rule url)
          apply (rule path_uri_takeWhile)
         apply (rule obj_get_sortedQuery_of [OF nm])
        apply (rule keys)
       apply (rule conjunct2 [OF k])
      apply (rule conjunct1 [OF inv [unfolded keys_inv_def]])
     apply (rule conjunct2 [OF inv [unfolded keys_inv_def]])
    apply (erule keys_sortedQuery_of_plain [OF d nm])
    done
qed

text \<open>
  C2, the theorem at work: the explicit query \<^verbatim>\<open>{b: 2, a: 1}\<close> and the path query
  \<^verbatim>\<open>?c=3\<close> give the merged object \<^verbatim>\<open>{b: 2, a: 1, c: "3"}\<close>, rebuilt in the key
  order a, b, c.
\<close>

theorem getRequestSign_canonical_url_witness:
  "objs (snd (getRequestSign demo_lib (demo_world token_ok no_answer) demo_creds ''/v1.0/devices?c=3'' ''GET''
                (Some []) (Some 0) None (state_with [(''b'', JNum 2), (''a'', JNum 1)]))) 0
     = [(''b'', JNum 2), (''a'', JNum 1), (''c'', JStr ''3'')]
   \<and> sortedQuery_of [(''b'', JNum 2), (''a'', JNum 1), (''c'', JStr ''3'')]
     = [(''a'', JNum 1), (''b'', JNum 2), (''c'', JStr ''3'')]"
proof -
  let ?W = "demo_world token_ok no_answer"
  let ?s1 = "state_with [(''b'', JNum 2), (''a'', JNum 1)]"
  have t1: "fst (getToken demo_lib ?W demo_creds ?s1) = Inr (JStr ''tok1'')" by (rule demo_getToken_ok)
  have "\<exists>h. getRequestSign demo_lib ?W demo_creds ''/v1.0/devices?c=3'' ''GET'' (Some []) (Some 0) None ?s1 =
               (Inr h, Object_assign 0 (qs_parse demo_lib (path_pathQuery ''/v1.0/devices?c=3'')) (snd (getToken demo_lib ?W demo_creds ?s1)))
             \<and> obj_get h ''path'' = JStr (if qs_stringify demo_lib (sortedQuery_of (assign_props (objs ?s1 0) (qs_parse demo_lib (path_pathQuery ''/v1.0/devices?c=3'')))) \<noteq> []
                 then path_uri ''/v1.0/devices?c=3'' @ ''?'' @ qs_stringify demo_lib (sortedQuery_of (assign_props (objs ?s1 0) (qs_parse demo_lib (path_pathQuery ''/v1.0/devices?c=3'')))) else path_uri ''/v1.0/devices?c=3'')
             \<and> obj_get h ''access_token'' = JStr ''tok1''"
    by (rule getRequestSign_Some_run [OF t1 demo_decode])
  then obtain h st' where run: "getRequestSign demo_lib ?W demo_creds ''/v1.0/devices?c=3'' ''GET'' (Some []) (Some 0) None ?s1 = (Inr h, st')"
    by (elim exE conjE)
  have wf: "distinct (map fst (objs ?s1 0))" by (simp add: state_with_def)
  have np: "''__proto__'' \<notin> set (map fst (objs ?s1 0))" by (simp add: state_with_def)
  have npp: "''__proto__'' \<notin> set (map fst (qs_parse demo_lib (path_pathQuery ''/v1.0/devices?c=3'')))"
    by (simp add: demo_parse_c3)
  have "objs st' 0 = assign_props (objs ?s1 0) (qs_parse demo_lib (path_pathQuery ''/v1.0/devices?c=3''))"
    using getRequestSign_canonical_url [OF run wf np npp] by (elim conjE) assumption
  then have "objs st' 0 = [(''b'', JNum 2), (''a'', JNum 1), (''c'', JStr ''3'')]"
    by (simp add: demo_parse_c3 state_with_def assign_props_def obj_set_def demo_keys_index)
  then show ?thesis using run demo_sortedQuery_abc by simp
qed

text \<open>
  C2 as stated fails. The value of \<^verbatim>\<open>c\<close>, which only the path's query has, is not
  dropped: the canonical URL ends \<^verbatim>\<open>a=1&b=2&c=3\<close>, since \<^verbatim>\<open>Object.assign\<close> has
  written it into the very object \<^verbatim>\<open>query\<close> that the values are then read from. And
  the keys \<^verbatim>\<open>10\<close> and \<^verbatim>\<open>9\<close>, sorted as strings into the order 10, 9, are listed by
  the rebuilt object in the order 9, 10, as every object lists its array indices.
\<close>

theorem canonical_url_keeps_path_values:
  "header_of ''path''
     (fst (getRequestSign demo_lib (demo_world token_ok no_answer) demo_creds ''/v1.0/devices?c=3'' ''GET''
             (Some []) (Some 0) None (state_with [(''b'', JNum 2), (''a'', JNum 1)])))
     = Inr (JStr ''/v1.0/devices?a=1&b=2&c=3'')
   \<and> header_of ''path''
     (fst (getRequestSign demo_lib (demo_world token_ok no_answer) demo_creds ''/v1.0/devices'' ''GET''
             (Some []) (Some 0) None (state_with [(''9'', JStr ''y''), (''10'', JStr ''x'')])))
     = Inr (JStr ''/v1.0/devices?9=y&10=x'')
   \<and> sort [''9'', ''10''] = [''10'', ''9'']"
proof -
  let ?W = "demo_world token_ok no_answer"
  let ?s1 = "state_with [(''b'', JNum 2), (''a'', JNum 1)]"
  let ?s2 = "state_with [(''9'', JStr ''y''), (''10'', JStr ''x'')]"
  have m1: "assign_props (objs ?s1 0) (qs_parse demo_lib (path_pathQuery ''/v1.0/devices?c=3''))
            = [(''b'', JNum 2), (''a'', JNum 1), (''c'', JStr ''3'')]"
    unfolding demo_parse_c3 by (simp add: state_with_def assign_props_def obj_set_def demo_keys_index)
  have m2: "assign_props (objs ?s2 0) (qs_parse demo_lib (path_pathQuery ''/v1.0/devices''))
            = [(''9'', JStr ''y''), (''10'', JStr ''x'')]"
    unfolding demo_parse_none by (simp add: state_with_def assign_props_def)
  have q1: "qs_stringify demo_lib (sortedQuery_of (assign_props (objs ?s1 0) (qs_parse demo_lib (path_pathQuery ''/v1.0/devices?c=3''))))
            = ''a=1&b=2&c=3''"
    unfolding m1 demo_sortedQuery_abc by (simp add: demo_lib_def demo_qs_stringify_def show_int_small)
  have q2: "qs_stringify demo_lib (sortedQuery_of (assign_props (objs ?s2 0) (qs_parse demo_lib (path_pathQuery ''/v1.0/devices''))))
            = ''9=y&10=x''"
    unfolding m2 conjunct1 [OF demo_sortedQuery_index] by (simp add: demo_lib_def demo_qs_stringify_def)
  have t1: "fst (getToken demo_lib ?W demo_creds ?s1) = Inr (JStr ''tok1'')" by (rule demo_getToken_ok)
  have t2: "fst (getToken demo_lib ?W demo_creds ?s2) = Inr (JStr ''tok1'')" by (rule demo_getToken_ok)
  have d1: "decodeURIComponent demo_lib (qs_stringify demo_lib (sortedQuery_of (assign_props (objs ?s1 0) (qs_parse demo_lib (path_pathQuery ''/v1.0/devices?c=3'')))))
            = Inr ''a=1&b=2&c=3''"
    by (simp only: q1 demo_decode)
  have d2: "decodeURIComponent demo_lib (qs_stringify demo_lib (sortedQuery_of (assign_props (objs ?s2 0) (qs_parse demo_lib (path_pathQuery ''/v1.0/devices'')))))
            = Inr ''9=y&10=x''"
    by (simp only: q2 demo_decode)
  have a: "header_of ''path''
     (fst (getRequestSign demo_lib ?W demo_creds ''/v1.0/devices?c=3'' ''GET'' (Some []) (Some 0) None ?s1))
     = Inr (JStr ''/v1.0/devices?a=1&b=2&c=3'')"
    using getRequestSign_Some_run [OF t1 d1, where meth = "''GET''" and hdrs = "Some []" and body = None]
    by (auto simp: demo_uri header_of_def)
  have b: "header_of ''path''
     (fst (getRequestSign demo_lib ?W demo_creds ''/v1.0/devices'' ''GET'' (Some []) (Some 0) None ?s2))
     = Inr (JStr ''/v1.0/devices?9=y&10=x'')"
    using getRequestSign_Some_run [OF t2 d2, where meth = "''GET''" and hdrs = "Some []" and body = None]
    by (auto simp: demo_uri header_of_def)
  show ?thesis using a b demo_sortedQuery_index by simp
qed

subsection \<open>C3: what is signed\<close>

text \<open>
  C3. Whenever \<^verbatim>\<open>getRequestSign\<close> returns its headers, for every method and body:
  the \<^verbatim>\<open>sign\<close> header is the upper-case hexadecimal HMAC-SHA256, keyed by
  \<^verbatim>\<open>secretKey\<close>, of \<^verbatim>\<open>accessKey + token + t + stringToSign\<close>, where the token is
  the one just acquired, \<^verbatim>\<open>t\<close> is the timestamp, and \<^verbatim>\<open>stringToSign\<close> joins with
  newlines the method, the content hash, the empty string and the canonical URL; the
  content hash is the SHA-256 of the empty string when the method is \<^verbatim>\<open>GET\<close>,
  whatever the body, and the SHA-256 of the JSON text of the body (of \<^verbatim>\<open>{}\<close> when
  none is given) for every other method; the canonical URL is the uri of the path,
  followed when the query string is not empty by a question mark and the query string
  rebuilt from the query object (the empty object when none is given) merged with the
  path's query. The canonical URL, the timestamp and the token are also the
  \<^verbatim>\<open>path\<close>, \<^verbatim>\<open>t\<close> and \<^verbatim>\<open>access_token\<close> headers.
\<close>

theorem getRequestSign_signature:
  assumes "getRequestSign L W creds path method hdrs query body st = (Inr h, st')"
  shows "\<exists>token querystring.
           fst (getToken L W creds st) = Inr token
         \<and> decodeURIComponent L
             (qs_stringify L
                (sortedQuery_of
                   (assign_props (case query of None \<Rightarrow> [] | Some r \<Rightarrow> objs st r)
                      (qs_parse L (path_pathQuery path))))) = Inr querystring
         \<and> obj_get h ''sign'' =
             JStr (spec_uppercase_hex
                     (hmac_sha256 L (secretKey creds)
                        (accessKey creds @ to_string token @ show_nat (now_getRequestSign W) @
                         join [CHR 0x0A]
                           [method,
                            if method = ''GET'' then digest_hex (sha256 L [])
                            else digest_hex (sha256 L (JSON_stringify_obj (case body of None \<Rightarrow> [] | Some b \<Rightarrow> b))),
                            [],
                            if querystring \<noteq> [] then path_uri path @ ''?'' @ querystring else path_uri path])))
         \<and> obj_get h ''path'' =
             JStr (if querystring \<noteq> [] then path_uri path @ ''?'' @ querystring else path_uri path)
         \<and> obj_get h ''t'' = JStr (show_nat (now_getRequestSign W))
         \<and> obj_get h ''access_token'' = token"
proof -
  let ?q0 = "case query of None \<Rightarrow> [] | Some r \<Rightarrow> objs st r"
  obtain r st1 where q: "getRequestSign L W creds path method hdrs query body st =
        getRequestSign L W creds path method hdrs (Some r) body st1"
    and o: "objs st1 r = ?q0"
  proof (cases query)
    case None
    show ?thesis
      by (rule that [of "next_ref st" "snd (alloc [] st)"])
         (simp_all add: None getRequestSign_None alloc_def)
  next
    case (Some r)
    show ?thesis by (rule that [of r st]) (simp_all add: Some)
  qed
  obtain tr st2 where tok: "getToken L W creds st1 = (tr, st2)" by (cases "getToken L W creds st1")
  have f: "fst (getToken L W creds st) = tr"
    using getToken_fst_indep [of L W creds st st1] tok by simp
  have o2: "objs st2 = objs st1" using getToken_state [of L W creds st1] tok by simp
  from assms obtain token where tr: "tr = Inr token"
    unfolding q getRequestSign_Some tok by (cases tr) simp_all
  have m: "objs (Object_assign r (qs_parse L (path_pathQuery path)) st2) r =
             assign_props ?q0 (qs_parse L (path_pathQuery path))"
    by (simp add: Object_assign_def o2 o)
  from assms obtain querystring where
    dec: "decodeURIComponent L (qs_stringify L (sortedQuery_of (assign_props ?q0 (qs_parse L (path_pathQuery path)))))
            = Inr querystring"
    unfolding q getRequestSign_Some tok tr
    by (cases "decodeURIComponent L (qs_stringify L (sortedQuery_of (assign_props ?q0 (qs_parse L (path_pathQuery path)))))")
       (simp_all add: Let_def m)
  let ?url = "if querystring \<noteq> [] then path_uri path @ ''?'' @ querystring else path_uri path"
  have h: "h = [(''t'', JStr (show_nat (now_getRequestSign W))),
                (''path'', JStr ?url),
                (''client_id'', JStr (accessKey creds)),
                (''sign'', JStr (encryptStr L
                    (accessKey creds @ to_string token @ show_nat (now_getRequestSign W) @
                     join [CHR 0x0A] [method, contentHash_of L method (case body of None \<Rightarrow> [] | Some b \<Rightarrow> b), [], ?url])
                    (secretKey creds))),
                (''sign_method'', JStr ''HMAC-SHA256''),
                (''access_token'', token)]"
    using assms unfolding q getRequestSign_Some tok tr
    by (simp add: Let_def m dec)
  have ch: "contentHash_of L method (case body of None \<Rightarrow> [] | Some b \<Rightarrow> b) =
              (if method = ''GET'' then digest_hex (sha256 L [])
               else digest_hex (sha256 L (JSON_stringify_obj (case body of None \<Rightarrow> [] | Some b \<Rightarrow> b))))"
    by (simp add: contentHash_of_def)
  have sg: "obj_get h ''sign'' =
             JStr (spec_uppercase_hex
                     (hmac_sha256 L (secretKey creds)
                        (accessKey creds @ to_string token @ show_nat (now_getRequestSign W) @
                         join [CHR 0x0A]
                           [method,
                            if method = ''GET'' then digest_hex (sha256 L [])
                            else digest_hex (sha256 L (JSON_stringify_obj (case body of None \<Rightarrow> [] | Some b \<Rightarrow> b))),
                            [],
                            ?url])))"
    unfolding h ch [symmetric] by (simp add: obj_get_def encryptStr_def toUpperCase_digest_hex)
  have pa: "obj_get h ''path'' = JStr ?url" unfolding h by (simp add: obj_get_def)
  have tt: "obj_get h ''t'' = JStr (show_nat (now_getRequestSign W))" unfolding h by (simp add: obj_get_def)
  have at: "obj_get h ''access_token'' = token" unfolding h by (simp add: obj_get_def)
  have ft: "fst (getToken L W creds st) = Inr token" using f tr by simp
  show ?thesis
    apply (rule exI [of _ token])
    apply (rule exI [of _ querystring])
    apply (intro conjI)
         apply (rule ft)
        apply (rule dec)
       apply (rule sg)
      apply (rule pa)
     apply (rule tt)
    apply (rule at)
    done
qed

text \<open>
  C3, the theorem at work: a \<^verbatim>\<open>POST\<close> and a \<^verbatim>\<open>GET\<close> with the body
  \<^verbatim>\<open>{commands: "[]"}\<close>, the query \<^verbatim>\<open>{b: 2, a: 1}\<close> and the path
  \<^verbatim>\<open>/v1.0/devices?c=3\<close>. What is signed ends with the canonical URL, and the
  signature is not that of the string that ends with the path as it was given.
\<close>

theorem getRequestSign_signature_witness:
  "header_of ''sign''
     (fst (getRequestSign demo_lib (demo_world token_ok no_answer) demo_creds ''/v1.0/devices?c=3'' ''POST''
             (Some []) (Some 0) (Some [(''commands'', JStr ''[]'')])
             (state_with [(''b'', JNum 2), (''a'', JNum 1)])))
     = Inr (JStr (spec_uppercase_hex (hmac_sha256 demo_lib ''sk''
                   (''ak'' @ ''tok1'' @ ''1700000000000'' @
                    join [CHR 0x0A]
                      [''POST'',
                       digest_hex (sha256 demo_lib
                         (''{'' @ [CHR 0x22] @ ''commands'' @ [CHR 0x22] @ '':'' @ [CHR 0x22] @ ''[]'' @ [CHR 0x22] @ ''}'')),
                       [],
                       ''/v1.0/devices?a=1&b=2&c=3'']))))
   \<and> header_of ''sign''
     (fst (getRequestSign demo_lib (demo_world token_ok no_answer) demo_creds ''/v1.0/devices?c=3'' ''GET''
             (Some []) (Some 0) (Some [(''commands'', JStr ''[]'')])
             (state_with [(''b'', JNum 2), (''a'', JNum 1)])))
     = Inr (JStr (spec_uppercase_hex (hmac_sha256 demo_lib ''sk''
                   (''ak'' @ ''tok1'' @ ''1700000000000'' @
                    join [CHR 0x0A]
                      [''GET'', digest_hex (sha256 demo_lib []), [], ''/v1.0/devices?a=1&b=2&c=3'']))))
   \<and> header_of ''sign''
     (fst (getRequestSign demo_lib (demo_world token_ok no_answer) demo_creds ''/v1.0/devices?c=3'' ''GET''
             (Some []) (Some 0) (Some [(''commands'', JStr ''[]'')])
             (state_with [(''b'', JNum 2), (''a'', JNum 1)])))
     \<noteq> Inr (JStr (spec_uppercase_hex (hmac_sha256 demo_lib ''sk''
                   (''ak'' @ ''tok1'' @ ''1700000000000'' @
                    join [CHR 0x0A]
                      [''GET'', digest_hex (sha256 demo_lib []), [], ''/v1.0/devices?c=3'']))))"
proof -
  let ?W = "demo_world token_ok no_answer"
  let ?p = "''/v1.0/devices?c=3''"
  let ?b = "[(''commands'', JStr ''[]'')]"
  let ?st = "state_with [(''b'', JNum 2), (''a'', JNum 1)]"
  have t1: "fst (getToken demo_lib ?W demo_creds ?st) = Inr (JStr ''tok1'')" by (rule demo_getToken_ok)
  have d: "decodeURIComponent demo_lib
             (qs_stringify demo_lib
                (sortedQuery_of
                   (assign_props (case Some 0 of None \<Rightarrow> [] | Some r \<Rightarrow> objs ?st r)
                      (qs_parse demo_lib (path_pathQuery ?p))))) = Inr ''a=1&b=2&c=3''"
    using demo_querystring_abc by simp
  have body: "JSON_stringify_obj ?b =
      ''{'' @ [CHR 0x22] @ ''commands'' @ [CHR 0x22] @ '':'' @ [CHR 0x22] @ ''[]'' @ [CHR 0x22] @ ''}''"
    by (simp add: JSON_stringify_obj_def json_quote_def json_escape_char_def)
  have sign: "header_of ''sign'' (fst (getRequestSign demo_lib ?W demo_creds ?p meth (Some []) (Some 0) (Some ?b) ?st))
      = Inr (JStr (spec_uppercase_hex (hmac_sha256 demo_lib ''sk''
                   (''ak'' @ ''tok1'' @ ''1700000000000'' @
                    join [CHR 0x0A]
                      [meth,
                       if meth = ''GET'' then digest_hex (sha256 demo_lib [])
                       else digest_hex (sha256 demo_lib (JSON_stringify_obj ?b)),
                       [],
                       ''/v1.0/devices?a=1&b=2&c=3'']))))" for meth
  proof -
    from getRequestSign_Some_run [OF t1 demo_querystring_abc, where meth = meth and hdrs = "Some []" and body = "Some ?b"]
    obtain h st' where run: "getRequestSign demo_lib ?W demo_creds ?p meth (Some []) (Some 0) (Some ?b) ?st = (Inr h, st')"
      by blast
    from getRequestSign_signature [OF run] obtain token querystring where
      tk: "fst (getToken demo_lib ?W demo_creds ?st) = Inr token"
      and qs: "decodeURIComponent demo_lib
             (qs_stringify demo_lib
                (sortedQuery_of
                   (assign_props (case Some 0 of None \<Rightarrow> [] | Some r \<Rightarrow> objs ?st r)
                      (qs_parse demo_lib (path_pathQuery ?p))))) = Inr querystring"
      and sg: "obj_get h ''sign'' =
             JStr (spec_uppercase_hex
                     (hmac_sha256 demo_lib (secretKey demo_creds)
                        (accessKey demo_creds @ to_string token @ show_nat (now_getRequestSign ?W) @
                         join [CHR 0x0A]
                           [meth,
                            if meth = ''GET'' then digest_hex (sha256 demo_lib [])
                            else digest_hex (sha256 demo_lib (JSON_stringify_obj (case Some ?b of None \<Rightarrow> [] | Some b \<Rightarrow> b))),
                            [],
                            if querystring \<noteq> [] then path_uri ?p @ ''?'' @ querystring else path_uri ?p])))"
      by blast
    have token: "token = JStr ''tok1''" using tk t1 by simp
    have querystring: "querystring = ''a=1&b=2&c=3''" using qs d by simp
    have hdr: "header_of ''sign'' (fst (getRequestSign demo_lib ?W demo_creds ?p meth (Some []) (Some 0) (Some ?b) ?st))
                 = Inr (obj_get h ''sign'')"
      by (simp add: run header_of_def)
    have k: "secretKey demo_creds = ''sk''" "accessKey demo_creds = ''ak''" by (simp_all add: demo_creds_def)
    have t: "show_nat (now_getRequestSign ?W) = ''1700000000000''"
      by (simp add: demo_world_def show_nat_now)
    show ?thesis
      unfolding hdr sg token querystring k t by (simp add: demo_uri)
  qed
  have len: "length (spec_uppercase_hex (hmac_sha256 demo_lib ''sk'' (x @ ''/v1.0/devices?a=1&b=2&c=3'')))
           \<noteq> length (spec_uppercase_hex (hmac_sha256 demo_lib ''sk'' (x @ ''/v1.0/devices?c=3'')))" for x
    by (simp add: length_spec_uppercase_hex demo_lib_def demo_hmac_sha256_def)
  have ne: "spec_uppercase_hex (hmac_sha256 demo_lib ''sk'' (x @ ''/v1.0/devices?a=1&b=2&c=3''))
           \<noteq> spec_uppercase_hex (hmac_sha256 demo_lib ''sk'' (x @ ''/v1.0/devices?c=3''))" for x
    using len [of x] by auto
  have post: "header_of ''sign'' (fst (getRequestSign demo_lib ?W demo_creds ?p ''POST'' (Some []) (Some 0) (Some ?b) ?st))
      = Inr (JStr (spec_uppercase_hex (hmac_sha256 demo_lib ''sk''
                   (''ak'' @ ''tok1'' @ ''1700000000000'' @
                    join [CHR 0x0A]
                      [''POST'',
                       digest_hex (sha256 demo_lib
                         (''{'' @ [CHR 0x22] @ ''commands'' @ [CHR 0x22] @ '':'' @ [CHR 0x22] @ ''[]'' @ [CHR 0x22] @ ''}'')),
                       [],
                       ''/v1.0/devices?a=1&b=2&c=3'']))))"
    using sign [of "''POST''"] unfolding body by simp
  have get: "header_of ''sign'' (fst (getRequestSign demo_lib ?W demo_creds ?p ''GET'' (Some []) (Some 0) (Some ?b) ?st))
      = Inr (JStr (spec_uppercase_hex (hmac_sha256 demo_lib ''sk''
                   (''ak'' @ ''tok1'' @ ''1700000000000'' @
                    join [CHR 0x0A]
                      [''GET'', digest_hex (sha256 demo_lib []), [], ''/v1.0/devices?a=1&b=2&c=3'']))))"
    using sign [of "''GET''"] by simp
  have other: "header_of ''sign'' (fst (getRequestSign demo_lib ?W demo_creds ?p ''GET'' (Some []) (Some 0) (Some ?b) ?st))
      \<noteq> Inr (JStr (spec_uppercase_hex (hmac_sha256 demo_lib ''sk''
                   (''ak'' @ ''tok1'' @ ''1700000000000'' @
                    join [CHR 0x0A]
                      [''GET'', digest_hex (sha256 demo_lib []), [], ''/v1.0/devices?c=3'']))))"
    unfolding get
    using ne [of "''ak'' @ ''tok1'' @ ''1700000000000'' @ ''GET'' @ [CHR 0x0A] @ digest_hex (sha256 demo_lib []) @ [CHR 0x0A] @ [CHR 0x0A]"]
    by simp
  show ?thesis using post get other by (simp only: simp_thms)
qed

subsection \<open>C4: acquiring the token\<close>

text \<open>
  C4, as the program has it. When the token endpoint answers with an envelope whose
  \<^verbatim>\<open>success\<close> is a boolean, \<^verbatim>\<open>getToken\<close> fails exactly when it is \<^verbatim>\<open>false\<close>,
  with an error whose message is \<^verbatim>\<open>Fetch failed:\<close> and the platform's message; when
  it is \<^verbatim>\<open>true\<close> it returns \<^verbatim>\<open>result.access_token\<close> if that is truthy, and the
  string \<^verbatim>\<open>NO TOKEN\<close> otherwise: when the token is absent, and also when it is the
  empty string.
\<close>

theorem getToken_envelope:
  assumes "fetch W (token_request L W creds) = Inr resp"
    and "resp_json resp = Inr res"
    and "get_own res ''success'' = JBool b"
  shows "(isl (fst (getToken L W creds st)) \<longleftrightarrow> \<not> b)
       \<and> (\<not> b \<longrightarrow> fst (getToken L W creds st) =
                   Inl (new_Error (''Fetch failed: '' @ to_string (get_own res ''msg''))))
       \<and> (b \<longrightarrow> fst (getToken L W creds st) =
                   Inr (if truthy (get_own (get_own res ''result'') ''access_token'')
                        then get_own (get_own res ''result'') ''access_token'' else JStr ''NO TOKEN''))
       \<and> (b \<and> get_own (get_own res ''result'') ''access_token'' = JUndefined \<longrightarrow>
              fst (getToken L W creds st) = Inr (JStr ''NO TOKEN''))
       \<and> (b \<and> get_own (get_own res ''result'') ''access_token'' = JStr [] \<longrightarrow>
              fst (getToken L W creds st) = Inr (JStr ''NO TOKEN''))"
  by (simp add: getToken_parsed [OF assms(1,2)] token_of_envelope_bool [OF assms(3)])

text \<open>C4, the theorem at work: a granted token, and a refused one.\<close>

theorem getToken_envelope_witness:
  "fst (getToken demo_lib (demo_world token_ok no_answer) demo_creds st0) = Inr (JStr ''tok1'')
   \<and> fst (getToken demo_lib (demo_world token_refused no_answer) demo_creds st0)
       = Inl (new_Error ''Fetch failed: invalid signature'')"
proof -
  let ?ok = "JObj [(''result'', JObj [(''access_token'', JStr ''tok1''), (''expire_time'', JNum 7200)]), (''success'', JBool True)]"
  let ?no = "JObj [(''code'', JNum 1004), (''msg'', JStr ''invalid signature''), (''success'', JBool False)]"
  have f1: "fetch (demo_world token_ok no_answer) (token_request demo_lib (demo_world token_ok no_answer) demo_creds)
              = Inr \<lparr>resp_status = 200, resp_json = Inr ?ok\<rparr>"
    by (simp add: demo_fetch_token token_ok_def json_response_def)
  have f2: "fetch (demo_world token_refused no_answer) (token_request demo_lib (demo_world token_refused no_answer) demo_creds)
              = Inr \<lparr>resp_status = 200, resp_json = Inr ?no\<rparr>"
    by (simp add: demo_fetch_token token_refused_def json_response_def)
  have j1: "resp_json \<lparr>resp_status = 200, resp_json = Inr ?ok\<rparr> = Inr ?ok" by simp
  have j2: "resp_json \<lparr>resp_status = 200, resp_json = Inr ?no\<rparr> = Inr ?no" by simp
  have s1: "get_own ?ok ''success'' = JBool True" by (simp add: get_own_def obj_get_def)
  have s2: "get_own ?no ''success'' = JBool False" by (simp add: get_own_def obj_get_def)
  have a: "fst (getToken demo_lib (demo_world token_ok no_answer) demo_creds st0) = Inr (JStr ''tok1'')"
    using getToken_envelope [OF f1 j1 s1, of st0] by (simp add: get_own_def obj_get_def)
  have b: "fst (getToken demo_lib (demo_world token_refused no_answer) demo_creds st0)
       = Inl (new_Error ''Fetch failed: invalid signature'')"
    using getToken_envelope [OF f2 j2 s2, of st0] by (simp add: get_own_def obj_get_def)
  show ?thesis using a b by simp
qed

text \<open>
  C4 as stated fails: with \<^verbatim>\<open>success: true\<close> and an access token that is present
  but empty, \<^verbatim>\<open>getToken\<close> returns \<^verbatim>\<open>NO TOKEN\<close>, not \<^verbatim>\<open>result.access_token\<close>.
\<close>

theorem getToken_empty_access_token:
  "fst (getToken demo_lib
          (demo_world
             (json_response 200 (JObj [(''result'', JObj [(''access_token'', JStr [])]), (''success'', JBool True)]))
             (Inl (new_Error ''no call'')))
          demo_creds st0) = Inr (JStr ''NO TOKEN'')"
  by (simp add: getToken_def Let_def demo_fetch_token json_response_def token_of_envelope_def
        get_prop_def get_own_def obj_get_def)

subsection \<open>C5: a refused token stops the command\<close>

text \<open>
  C5, as the program has it. For every credentials, device and \<^verbatim>\<open>onOff\<close>: if the
  token endpoint answers \<^verbatim>\<open>success: false\<close> with a message, \<^verbatim>\<open>turnOnOff\<close> fails
  with an \<^verbatim>\<open>Error\<close> whose message is \<^verbatim>\<open>Fetch failed:\<close> and that message (an
  object of the one class \<^verbatim>\<open>Error\<close>, as every error of the program), and all it
  has done is to send the token request and to read its answer: the only request sent
  goes to the token URL, which is not the commands URL, so no command request is ever
  sent.
\<close>

theorem turnOnOff_token_refused:
  assumes "fetch W (token_request L W creds) = Inr resp"
    and "resp_json resp = Inr res"
    and "get_own res ''success'' = JBool False"
    and "get_own res ''msg'' = JStr m"
  shows "fst (turnOnOff L W creds deviceId onOff st) = Inl (new_Error (''Fetch failed: '' @ m))
       \<and> err_name (new_Error (''Fetch failed: '' @ m)) = ''Error''
       \<and> err_message (new_Error (''Fetch failed: '' @ m)) = ''Fetch failed: '' @ m
       \<and> events (snd (turnOnOff L W creds deviceId onOff st)) =
           events st @ [Fetch (token_request L W creds), ReadJson resp]
       \<and> req_url (token_request L W creds) = baseUrl creds @ ''/v1.0/token?grant_type=1''
       \<and> req_url (token_request L W creds) \<noteq> baseUrl creds @ ''/v1.0/devices/'' @ deviceId @ ''/commands''"
proof -
  let ?st1 = "snd (alloc [] st)"
  let ?e = "new_Error (''Fetch failed: '' @ m)"
  have tok: "getToken L W creds ?st1 =
      (Inl ?e, emit (ReadJson resp) (emit (Fetch (token_request L W creds)) ?st1))"
    by (simp add: getToken_parsed [OF assms(1,2)] token_of_envelope_bool [OF assms(3)] assms(4))
  have res: "turnOnOff L W creds deviceId onOff st =
      (Inl ?e, emit (ReadJson resp) (emit (Fetch (token_request L W creds)) ?st1))"
    using turnOnOff_sign_error [of L W creds st ?e deviceId onOff] tok by simp
  show ?thesis
    by (simp add: res emit_def alloc_def token_request_def Let_def new_Error_def)
qed

text \<open>C5, the theorem at work: the platform answers \<^verbatim>\<open>invalid signature\<close>.\<close>

theorem turnOnOff_token_refused_witness:
  "fst (turnOnOff demo_lib (demo_world token_refused no_answer) demo_creds ''d1'' True st0)
     = Inl (new_Error ''Fetch failed: invalid signature'')
   \<and> events (snd (turnOnOff demo_lib (demo_world token_refused no_answer) demo_creds ''d1'' True st0))
     = [Fetch (token_request demo_lib (demo_world token_refused no_answer) demo_creds),
        ReadJson \<lparr>resp_status = 200,
                  resp_json = Inr (JObj [(''code'', JNum 1004), (''msg'', JStr ''invalid signature''),
                                         (''success'', JBool False)])\<rparr>]
   \<and> req_url (token_request demo_lib (demo_world token_refused no_answer) demo_creds)
     = ''https://openapi.example/v1.0/token?grant_type=1''"
proof -
  let ?no = "JObj [(''code'', JNum 1004), (''msg'', JStr ''invalid signature''), (''success'', JBool False)]"
  let ?W = "demo_world token_refused no_answer"
  have f2: "fetch ?W (token_request demo_lib ?W demo_creds) = Inr \<lparr>resp_status = 200, resp_json = Inr ?no\<rparr>"
    by (simp add: demo_fetch_token token_refused_def json_response_def)
  have j2: "resp_json \<lparr>resp_status = 200, resp_json = Inr ?no\<rparr> = Inr ?no" by simp
  have s2: "get_own ?no ''success'' = JBool False" by (simp add: get_own_def obj_get_def)
  have m2: "get_own ?no ''msg'' = JStr ''invalid signature''" by (simp add: get_own_def obj_get_def)
  note t = turnOnOff_token_refused [OF f2 j2 s2 m2, of "''d1''" True st0]
  show ?thesis
    using t by (simp add: st0_def demo_creds_def)
qed

text \<open>
  C5 as stated fails: what \<^verbatim>\<open>turnOnOff\<close> throws when the token is refused is a plain
  \<^verbatim>\<open>Error\<close>, of the same class and name as what it throws when the commands
  endpoint answers with an HTTP 500; it is no \<^verbatim>\<open>AuthError\<close>, and only the text of
  the message tells that the token was refused.
\<close>

theorem turnOnOff_token_error_untyped:
  "fst (turnOnOff demo_lib (demo_world token_refused no_answer) demo_creds ''d1'' True st0)
     = Inl (JSError ''Error'' ''Fetch failed: invalid signature'')
   \<and> fst (turnOnOff demo_lib (demo_world token_ok (json_response 500 JNull)) demo_creds ''d1'' True st0)
     = Inl (JSError ''Error'' ''Error: HTTP Error. Status 500'')"
proof -
  let ?W = "demo_world token_ok (json_response 500 JNull)"
  let ?body = "Some [(''commands'', JStr (JSON_stringify_arr [JObj [(''code'', JStr ''switch_led''), (''value'', JBool True)]]))]"
  have t: "fst (getToken demo_lib (demo_world token_refused no_answer) demo_creds (snd (alloc [] st0)))
             = Inl (new_Error ''Fetch failed: invalid signature'')"
    by (rule demo_getToken_refused)
  have a: "fst (turnOnOff demo_lib (demo_world token_refused no_answer) demo_creds ''d1'' True st0)
     = Inl (JSError ''Error'' ''Fetch failed: invalid signature'')"
    using turnOnOff_sign_error [OF t] by (simp add: new_Error_def)
  obtain h st1 where s: "getRequestSign demo_lib ?W demo_creds (''/v1.0/devices/'' @ ''d1'' @ ''/commands'') ''POST'' (Some []) None ?body st0
      = (Inr h, st1)"
    using demo_sign_None [of "json_response 500 JNull" "''d1'' @ ''/commands''" "''POST''" ?body] by auto
  have f: "fetch ?W (call_request demo_creds ''POST'' (''/v1.0/devices/'' @ ''d1'' @ ''/commands'') h ?body)
      = Inr \<lparr>resp_status = 500, resp_json = Inr JNull\<rparr>"
    using demo_fetch_call [of token_ok "json_response 500 JNull" "''POST''" "''d1'' @ ''/commands''" h ?body]
    by (simp add: json_response_def)
  have bad: "\<not> resp_ok \<lparr>resp_status = 500, resp_json = Inr JNull\<rparr>" by (simp add: resp_ok_def)
  have b: "fst (turnOnOff demo_lib ?W demo_creds ''d1'' True st0) = Inl (JSError ''Error'' ''Error: HTTP Error. Status 500'')"
    using turnOnOff_not_ok [OF s f bad] by (simp add: show_nat_500 new_Error_def)
  show ?thesis using a b by simp
qed

subsection \<open>C6: decoding the device status\<close>

text \<open>
  C6. For every list of \<^verbatim>\<open>{code, value}\<close> pairs, \<^verbatim>\<open>getDeviceStatus\<close> folds the
  list into a record by the fixed table \<^verbatim>\<open>switch_led\<close> to \<^verbatim>\<open>onOff\<close>,
  \<^verbatim>\<open>bright_value_v2\<close> to \<^verbatim>\<open>brightness\<close>, \<^verbatim>\<open>temp_value_v2\<close> to \<^verbatim>\<open>temp\<close>,
  \<^verbatim>\<open>colour_data_v2\<close> to \<^verbatim>\<open>color\<close>. The fold is over the whole list: the empty list
  decodes to the empty record, and a list with one more pair at its end decodes as the
  list without it, followed by the step for that pair (or fails as the list without it
  does). In a step, a pair with a code of the table sets that field, to its value, or
  for the colour to the value parsed again as JSON; a pair with any other code changes
  nothing, so the list decodes as the list of its recognized pairs does; the record
  has no other field than the four. The example list decodes to
  \<^verbatim>\<open>{onOff: true, color: {h: 10, s: 500, v: 800}}\<close>, with \<^verbatim>\<open>brightness\<close> and
  \<^verbatim>\<open>temp\<close> absent. And \<^verbatim>\<open>getDeviceStatus\<close> decodes the \<^verbatim>\<open>result\<close> of the envelope
  that the \<^verbatim>\<open>GET\<close> of the device's status endpoint returns.
\<close>

theorem decode_status_mapping:
  "status_step L (status_pair code v) status =
     (case map_of code_field code of
        None \<Rightarrow> Inr status
      | Some f \<Rightarrow> (case field_value L code v of Inl e \<Rightarrow> Inl e | Inr x \<Rightarrow> Inr (obj_set status f x)))
   \<and> decode_status L (status_pairs []) = Inr []
   \<and> decode_status L (status_pairs (ps @ [(code, v)])) =
       (case decode_status L (status_pairs ps) of
          Inl e \<Rightarrow> Inl e
        | Inr status' \<Rightarrow> status_step L (status_pair code v) status')
   \<and> decode_status L (status_pairs ps) =
       decode_status L (status_pairs (filter (\<lambda>(c, v). c \<in> set (map fst code_field)) ps))
   \<and> (decode_status L (status_pairs ps) = Inr decoded \<longrightarrow>
        set (map fst decoded) \<subseteq> {''onOff'', ''brightness'', ''temp'', ''color''})
   \<and> (JSON_parse L example_colour_text = Inr hsv \<longrightarrow>
        decode_status L (status_pairs [(''switch_led'', JBool True), (''colour_data_v2'', JStr example_colour_text)])
          = Inr [(''onOff'', JBool True), (''color'', hsv)])
   \<and> map_of [(''onOff'', JBool True), (''color'', hsv)] ''brightness'' = None
   \<and> map_of [(''onOff'', JBool True), (''color'', hsv)] ''temp'' = None
   \<and> (authenticatedCall L W creds ''GET'' (''/v1.0/devices/'' @ deviceId @ ''/status'') None None st = (Inr envelope, st1)
        \<and> get_own envelope ''result'' = status_pairs ps \<longrightarrow>
        getDeviceStatus L W creds deviceId st = (decode_status L (status_pairs ps), st1))"
proof -
  have keys: "decode_status L (status_pairs ps) = Inr decoded \<Longrightarrow>
        set (map fst decoded) \<subseteq> {''onOff'', ''brightness'', ''temp'', ''color''}"
    using status_forEach_keys [of L ps "[]" decoded]
    by (simp add: decode_status_def status_pairs_def code_field_def del: set_map)
  have ex: "JSON_parse L example_colour_text = Inr hsv \<Longrightarrow>
        decode_status L (status_pairs [(''switch_led'', JBool True), (''colour_data_v2'', JStr example_colour_text)])
          = Inr [(''onOff'', JBool True), (''color'', hsv)]"
    by (simp add: decode_status_def status_pairs_def status_step_pair code_field_def field_value_def obj_set_def
          is_array_index_def is_digit_def)
  have ign: "decode_status L (status_pairs ps) =
       decode_status L (status_pairs (filter (\<lambda>(c, v). c \<in> set (map fst code_field)) ps))"
    using status_forEach_ignore [of L ps "[]"] by (simp add: decode_status_def status_pairs_def del: set_map)
  have dev: "authenticatedCall L W creds ''GET'' (''/v1.0/devices/'' @ deviceId @ ''/status'') None None st = (Inr envelope, st1)
        \<and> get_own envelope ''result'' = status_pairs ps \<longrightarrow>
        getDeviceStatus L W creds deviceId st = (decode_status L (status_pairs ps), st1)"
    using getDeviceStatus_decodes [of L W creds deviceId st envelope st1 "map (\<lambda>(c, v). status_pair c v) ps"]
    by (simp add: status_pairs_def)
  have empty: "decode_status L (status_pairs []) = Inr []"
    by (simp add: decode_status_def status_pairs_def)
  have snoc: "decode_status L (status_pairs (ps @ [(code, v)])) =
       (case decode_status L (status_pairs ps) of
          Inl e \<Rightarrow> Inl e
        | Inr status' \<Rightarrow> status_step L (status_pair code v) status')"
    by (simp add: decode_status_def status_pairs_def status_forEach_append split: sum.splits)
  show ?thesis
    using status_step_pair [of L code v status] empty snoc ign keys ex dev
    by (simp del: set_map)
qed

text \<open>
  C6, the theorem at work: the example of the specification, decoded and returned by
  \<^verbatim>\<open>getDeviceStatus\<close>, and a list with all four codes and one that is not recognized.
\<close>

theorem decode_status_mapping_witness:
  "decode_status demo_lib (status_pairs [(''switch_led'', JBool True), (''colour_data_v2'', JStr example_colour_text)])
     = Inr [(''onOff'', JBool True), (''color'', JObj [(''h'', JNum 10), (''s'', JNum 500), (''v'', JNum 800)])]
   \<and> example_colour_text = JSON_stringify_obj [(''h'', JNum 10), (''s'', JNum 500), (''v'', JNum 800)]
   \<and> fst (getDeviceStatus demo_lib
            (demo_world token_ok
               (json_response 200
                  (JObj [(''result'', status_pairs [(''switch_led'', JBool True),
                                                    (''colour_data_v2'', JStr example_colour_text)]),
                         (''success'', JBool True)])))
            demo_creds ''d1'' st0)
     = Inr [(''onOff'', JBool True), (''color'', JObj [(''h'', JNum 10), (''s'', JNum 500), (''v'', JNum 800)])]
   \<and> decode_status demo_lib
       (status_pairs [(''switch_led'', JBool False), (''bright_value_v2'', JNum 500), (''work_mode'', JStr ''white''),
                      (''temp_value_v2'', JNum 300), (''colour_data_v2'', JStr example_colour_text)])
     = Inr [(''onOff'', JBool False), (''brightness'', JNum 500), (''temp'', JNum 300),
            (''color'', JObj [(''h'', JNum 10), (''s'', JNum 500), (''v'', JNum 800)])]"
proof -
  let ?hsv = "JObj [(''h'', JNum 10), (''s'', JNum 500), (''v'', JNum 800)]"
  let ?ps = "[(''switch_led'', JBool True), (''colour_data_v2'', JStr example_colour_text)]"
  let ?env = "JObj [(''result'', status_pairs ?ps), (''success'', JBool True)]"
  let ?W = "demo_world token_ok (json_response 200 ?env)"
  have p: "JSON_parse demo_lib example_colour_text = Inr ?hsv"
    by (simp add: demo_lib_def demo_JSON_parse_def)
  have "JSON_parse demo_lib example_colour_text = Inr ?hsv \<longrightarrow>
        decode_status demo_lib (status_pairs ?ps) = Inr [(''onOff'', JBool True), (''color'', ?hsv)]"
    by (rule conjunct1 [OF conjunct2 [OF conjunct2 [OF conjunct2 [OF conjunct2 [OF conjunct2
          [OF decode_status_mapping]]]]]])
  then have a: "decode_status demo_lib (status_pairs ?ps) = Inr [(''onOff'', JBool True), (''color'', ?hsv)]"
    using p by (simp only: simp_thms)
  have su: "get_own ?env ''success'' = JBool True" by (simp add: get_own_def obj_get_def)
  have re: "get_own ?env ''result'' = status_pairs ?ps" by (simp add: get_own_def obj_get_def)
  obtain st1 where call: "authenticatedCall demo_lib ?W demo_creds ''GET'' (''/v1.0/devices/'' @ ''d1'' @ ''/status'') None None st0
      = (Inr ?env, st1)"
    using demo_status_call [OF su, of "''d1''"] by blast
  have "authenticatedCall demo_lib ?W demo_creds ''GET'' (''/v1.0/devices/'' @ ''d1'' @ ''/status'') None None st0 = (Inr ?env, st1)
        \<and> get_own ?env ''result'' = status_pairs ?ps \<longrightarrow>
        getDeviceStatus demo_lib ?W demo_creds ''d1'' st0 = (decode_status demo_lib (status_pairs ?ps), st1)"
    by (rule conjunct2 [OF conjunct2 [OF conjunct2 [OF conjunct2 [OF conjunct2 [OF conjunct2 [OF conjunct2
          [OF conjunct2 [OF decode_status_mapping]]]]]]]])
  then have b: "fst (getDeviceStatus demo_lib ?W demo_creds ''d1'' st0) = Inr [(''onOff'', JBool True), (''color'', ?hsv)]"
    using call re a by (simp only: simp_thms fst_conv)
  have c: "decode_status demo_lib
       (status_pairs [(''switch_led'', JBool False), (''bright_value_v2'', JNum 500), (''work_mode'', JStr ''white''),
                      (''temp_value_v2'', JNum 300), (''colour_data_v2'', JStr example_colour_text)])
     = Inr [(''onOff'', JBool False), (''brightness'', JNum 500), (''temp'', JNum 300), (''color'', ?hsv)]"
    using p
    by (simp add: decode_status_def status_pairs_def status_step_pair code_field_def field_value_def obj_set_def
          is_array_index_def is_digit_def)
  show ?thesis using a b c example_colour_text_eq by (simp only: simp_thms)
qed

subsection \<open>C7: resolving a room name\<close>

text \<open>
  C7, as the program has it. The tool layer normalizes the room name by trimming,
  lower-casing and removing all white space (which is lower-casing the name without
  its white space) and looks it up in the table of the four rooms; \<^verbatim>\<open>Living Room \<close>
  normalizes to \<^verbatim>\<open>livingroom\<close> and returns the JSON text of the configured
  living-room device id (a string id in double quotes). A name whose normalized form is
  none of the four keys, nor \<^verbatim>\<open>__proto__\<close>, returns \<^verbatim>\<open>undefined\<close>, that is no value;
  a room of the table whose device id is not set returns the same.
\<close>

theorem getDeviceId_execute_lookup:
  "normalize_roomName roomName = map lower_char (filter (\<lambda>c. \<not> is_space c) roomName)
   \<and> getDeviceId_execute roomName e = getDeviceId (normalize_roomName roomName) e
   \<and> getDeviceId ''bedroom'' e = JSON_stringify (BEDROOM_DEVICE_ID e)
   \<and> getDeviceId ''livingroom'' e = JSON_stringify (LIVINGROOM_DEVICE_ID e)
   \<and> getDeviceId ''diningroom'' e = JSON_stringify (DINNING_DEVICE_ID e)
   \<and> getDeviceId ''kitchen'' e = JSON_stringify (KITCHEN_DEVICE_ID e)
   \<and> normalize_roomName ''Living Room '' = ''livingroom''
   \<and> getDeviceId_execute ''Living Room '' e = JSON_stringify (LIVINGROOM_DEVICE_ID e)
   \<and> (LIVINGROOM_DEVICE_ID e = JStr deviceId \<longrightarrow>
        getDeviceId_execute ''Living Room '' e = Some (json_quote deviceId))
   \<and> (normalize_roomName roomName \<notin> {''bedroom'', ''livingroom'', ''diningroom'', ''kitchen'', ''__proto__''} \<longrightarrow>
        getDeviceId_execute roomName e = None)
   \<and> (KITCHEN_DEVICE_ID e = JUndefined \<longrightarrow> getDeviceId ''kitchen'' e = None)"
  using normalize_roomName_eq [of roomName] getDeviceId_table [of e] normalize_living_room
    getDeviceId_other [of "normalize_roomName roomName" e]
  by (simp add: getDeviceId_execute_def JSON_stringify_def)

text \<open>C7, the theorem at work: the living room, and an attic there is none of.\<close>

theorem getDeviceId_execute_lookup_witness:
  "getDeviceId_execute ''Living Room '' demo_env = Some (json_quote ''liv1'')
   \<and> getDeviceId_execute ''attic'' demo_env = None"
proof -
  have n: "normalize_roomName ''attic'' \<notin> {''bedroom'', ''livingroom'', ''diningroom'', ''kitchen'', ''__proto__''}"
    by (simp add: normalize_roomName_eq is_space_def lower_char_def char_of_def bit_Suc_0_iff)
  have l: "LIVINGROOM_DEVICE_ID demo_env = JStr ''liv1''" by (simp add: demo_env_def)
  note t = getDeviceId_execute_lookup [of "''attic''" demo_env "''liv1''"]
  have a: "LIVINGROOM_DEVICE_ID demo_env = JStr ''liv1'' \<longrightarrow>
        getDeviceId_execute ''Living Room '' demo_env = Some (json_quote ''liv1'')"
    using t by (elim conjE) assumption
  have b: "normalize_roomName ''attic'' \<notin> {''bedroom'', ''livingroom'', ''diningroom'', ''kitchen'', ''__proto__''} \<longrightarrow>
        getDeviceId_execute ''attic'' demo_env = None"
    using t by (elim conjE) assumption
  show ?thesis using a b n l by (simp only: simp_thms)
qed

text \<open>
  C7 as stated fails. The unrecognized name \<^verbatim>\<open>garage\<close> returns \<^verbatim>\<open>undefined\<close>, which
  is what the recognized \<^verbatim>\<open>Kitchen\<close> returns too when its id is not set; the
  unrecognized name \<^verbatim>\<open>__proto__\<close> returns the text \<^verbatim>\<open>{}\<close> instead; and the living
  room returns its id inside double quotes.
\<close>

theorem getDeviceId_execute_not_found_ambiguous:
  "getDeviceId_execute ''garage'' demo_env = None
   \<and> getDeviceId_execute ''Kitchen'' demo_env = None
   \<and> getDeviceId_execute ''__proto__'' demo_env = Some ''{}''
   \<and> getDeviceId_execute ''Living Room '' demo_env = Some [CHR 0x22, CHR ''l'', CHR ''i'', CHR ''v'', CHR ''1'', CHR 0x22]"
proof -
  have n: "normalize_roomName ''garage'' = ''garage''" "normalize_roomName ''Kitchen'' = ''kitchen''"
    "normalize_roomName ''__proto__'' = ''__proto__''"
    by (simp_all add: normalize_roomName_eq is_space_def lower_char_def char_of_def bit_Suc_0_iff)
  show ?thesis
    using getDeviceId_table [of demo_env] getDeviceId_proto [of demo_env]
    by (simp add: getDeviceId_execute_def n normalize_living_room getDeviceId_other demo_env_def
          JSON_stringify_def json_quote_def json_escape_char_def)
qed

subsection \<open>C8: the signer\<close>

text \<open>
  C8. For every message and secret, \<^verbatim>\<open>encryptStr\<close> returns the upper-case
  hexadecimal encoding of the HMAC-SHA256 digest of the message keyed by the secret:
  the digest's bytes written with two digits each from 0-9 and A-F. The function takes
  nothing but the two strings (and the library), reads no clock and no state, and
  returns a plain string: equal inputs give the equal signature, and it has no failing
  branch.
\<close>

theorem encryptStr_uppercase_hex_hmac:
  "encryptStr L message secret = spec_uppercase_hex (hmac_sha256 L secret message)
   \<and> set (encryptStr L message secret) \<subseteq> set ''0123456789ABCDEF''
   \<and> length (encryptStr L message secret) = 2 * length (hmac_sha256 L secret message)"
  by (simp add: encryptStr_def toUpperCase_digest_hex set_spec_uppercase_hex
        length_spec_uppercase_hex del: set_simps)

subsection \<open>C9: the caller's query object is changed\<close>

text \<open>
  C9, as the program has it. Whenever the token acquisition inside
  \<^verbatim>\<open>getRequestSign\<close> succeeds, the object the caller passed as \<^verbatim>\<open>query\<close> is,
  after the call, the object it was with every key parsed from the path's query
  assigned into it: its keys are the old keys and the path's keys, a key of the path's
  query has the path's value (also where the explicit query had that key), every other
  key has its old value (the path's query being an object with distinct keys, none of
  them \<^verbatim>\<open>__proto__\<close>). The caller of \<^verbatim>\<open>authenticatedCall\<close> sees the same change.
\<close>

theorem getRequestSign_mutates_query:
  assumes "fst (getToken L W creds st) = Inr token"
    and "distinct (map fst (qs_parse L (path_pathQuery path)))"
    and "''__proto__'' \<notin> set (map fst (qs_parse L (path_pathQuery path)))"
  shows "objs (snd (getRequestSign L W creds path method hdrs (Some r) body st)) r =
           assign_props (objs st r) (qs_parse L (path_pathQuery path))
       \<and> objs (snd (authenticatedCall L W creds method path (Some r) body st)) r =
           assign_props (objs st r) (qs_parse L (path_pathQuery path))
       \<and> set (map fst (assign_props (objs st r) (qs_parse L (path_pathQuery path)))) =
           set (map fst (objs st r)) \<union> set (map fst (qs_parse L (path_pathQuery path)))
       \<and> (\<forall>k. obj_get (assign_props (objs st r) (qs_parse L (path_pathQuery path))) k =
              (if k \<in> set (map fst (qs_parse L (path_pathQuery path)))
               then obj_get (qs_parse L (path_pathQuery path)) k
               else obj_get (objs st r) k))"
  using getRequestSign_Some_objs [OF assms(1), where path = path and r = r and body = body]
    authenticatedCall_objs [where L = L and W = W and creds = creds and endpoint = path and query = "Some r"
      and body = body and st = st]
    set_keys_assign_props [OF assms(3), of "objs st r"]
    obj_get_assign_props [OF assms(2,3), of "objs st r"]
  by (simp del: set_map)

text \<open>C9, the theorem at work: \<^verbatim>\<open>{b: 2, a: 1}\<close> has gained \<^verbatim>\<open>c\<close> after the call.\<close>

theorem getRequestSign_mutates_query_witness:
  "objs (snd (getRequestSign demo_lib (demo_world token_ok no_answer) demo_creds
                ''/v1.0/devices?c=3'' ''GET'' (Some []) (Some 0) None
                (state_with [(''b'', JNum 2), (''a'', JNum 1)]))) 0
     = [(''b'', JNum 2), (''a'', JNum 1), (''c'', JStr ''3'')]"
proof -
  let ?W = "demo_world token_ok no_answer"
  let ?st = "state_with [(''b'', JNum 2), (''a'', JNum 1)]"
  have t: "fst (getToken demo_lib ?W demo_creds ?st) = Inr (JStr ''tok1'')"
    by (rule demo_getToken_ok)
  have d: "distinct (map fst (qs_parse demo_lib (path_pathQuery ''/v1.0/devices?c=3'')))"
    by (simp add: demo_parse_c3)
  have np: "''__proto__'' \<notin> set (map fst (qs_parse demo_lib (path_pathQuery ''/v1.0/devices?c=3'')))"
    by (simp add: demo_parse_c3)
  have "objs (snd (getRequestSign demo_lib ?W demo_creds ''/v1.0/devices?c=3'' ''GET'' (Some []) (Some 0) None ?st)) 0
          = assign_props (objs ?st 0) (qs_parse demo_lib (path_pathQuery ''/v1.0/devices?c=3''))"
    using getRequestSign_mutates_query [OF t d np] by blast
  then show ?thesis
    by (simp add: demo_parse_c3 state_with_def assign_props_def obj_set_def demo_keys_index)
qed

text \<open>
  C9 as stated fails: when the token is refused, \<^verbatim>\<open>getRequestSign\<close> throws before
  the merge, and the caller's object is left as it was, without the key \<^verbatim>\<open>c\<close> of the
  path's query.
\<close>

theorem getRequestSign_token_refused_leaves_query:
  "objs (snd (getRequestSign demo_lib (demo_world token_refused no_answer) demo_creds
                ''/v1.0/devices?c=3'' ''GET'' (Some []) (Some 0) None
                (state_with [(''b'', JNum 2), (''a'', JNum 1)]))) 0
     = [(''b'', JNum 2), (''a'', JNum 1)]
   \<and> qs_parse demo_lib (path_pathQuery ''/v1.0/devices?c=3'') = [(''c'', JStr ''3'')]"
proof -
  let ?W = "demo_world token_refused no_answer"
  let ?st = "state_with [(''b'', JNum 2), (''a'', JNum 1)]"
  have "getRequestSign demo_lib ?W demo_creds ''/v1.0/devices?c=3'' ''GET'' (Some []) (Some 0) None ?st
          = (Inl (new_Error ''Fetch failed: invalid signature''), snd (getToken demo_lib ?W demo_creds ?st))"
    by (rule getRequestSign_token_error [OF demo_getToken_refused])
  then show ?thesis
    using getToken_state [of demo_lib ?W demo_creds ?st]
    by (simp add: demo_parse_c3 state_with_def)
qed

subsection \<open>C10: the last pair wins\<close>

text \<open>
  C10. \<^verbatim>\<open>getDeviceStatus\<close> returns the record decoded from the list of
  \<^verbatim>\<open>{code, value}\<close> pairs that is the \<^verbatim>\<open>result\<close> of the envelope the status
  endpoint returned. For every such list that decodes: the pairs are processed in list
  order starting from the empty record (the list with one more pair decodes as one more
  step from the record decoded so far); each of the four fields holds the value of the
  last pair that carries its code (for the colour, that value parsed), and is absent
  when no pair carries it: the record contains a field if and only if a pair with its
  code occurs in the list.
\<close>

theorem decode_status_last_wins:
  assumes ok: "decode_status L (status_pairs ps) = Inr decoded"
  shows "map_of decoded ''onOff'' = last_value ''switch_led'' ps
       \<and> map_of decoded ''brightness'' = last_value ''bright_value_v2'' ps
       \<and> map_of decoded ''temp'' = last_value ''temp_value_v2'' ps
       \<and> map_of decoded ''color'' =
           (case last_value ''colour_data_v2'' ps of
              None \<Rightarrow> None
            | Some v \<Rightarrow> (case JSON_parse L (to_string v) of Inl e \<Rightarrow> None | Inr parsed \<Rightarrow> Some parsed))
       \<and> (''onOff'' \<in> set (map fst decoded) \<longleftrightarrow> ''switch_led'' \<in> set (map fst ps))
       \<and> (''brightness'' \<in> set (map fst decoded) \<longleftrightarrow> ''bright_value_v2'' \<in> set (map fst ps))
       \<and> (''temp'' \<in> set (map fst decoded) \<longleftrightarrow> ''temp_value_v2'' \<in> set (map fst ps))
       \<and> (''color'' \<in> set (map fst decoded) \<longleftrightarrow> ''colour_data_v2'' \<in> set (map fst ps))
       \<and> decode_status L (status_pairs (ps @ [(code, w)])) =
           status_step L (status_pair code w) decoded
       \<and> decode_status L (status_pairs []) = Inr []
       \<and> (authenticatedCall L W creds ''GET'' (''/v1.0/devices/'' @ deviceId @ ''/status'') None None st = (Inr envelope, st1)
            \<and> get_own envelope ''result'' = status_pairs ps \<longrightarrow>
            getDeviceStatus L W creds deviceId st = (Inr decoded, st1))"
proof -
  have run: "status_forEach L (map (\<lambda>(c, v). status_pair c v) ps) [] = Inr decoded"
    using ok by (simp add: decode_status_def status_pairs_def)
  have f1: "map_of decoded ''onOff'' = last_value ''switch_led'' ps"
    using status_forEach_field [OF run, of "''switch_led''" "''onOff''"]
    by (simp add: code_field_def field_value_def split: option.splits)
  have f2: "map_of decoded ''brightness'' = last_value ''bright_value_v2'' ps"
    using status_forEach_field [OF run, of "''bright_value_v2''" "''brightness''"]
    by (simp add: code_field_def field_value_def split: option.splits)
  have f3: "map_of decoded ''temp'' = last_value ''temp_value_v2'' ps"
    using status_forEach_field [OF run, of "''temp_value_v2''" "''temp''"]
    by (simp add: code_field_def field_value_def split: option.splits)
  have f4: "map_of decoded ''color'' =
           (case last_value ''colour_data_v2'' ps of
              None \<Rightarrow> None
            | Some v \<Rightarrow> (case JSON_parse L (to_string v) of Inl e \<Rightarrow> None | Inr parsed \<Rightarrow> Some parsed))"
    using status_forEach_field [OF run, of "''colour_data_v2''" "''color''"]
    by (simp add: code_field_def field_value_def split: option.splits)
  have k1: "''onOff'' \<in> set (map fst decoded) \<longleftrightarrow> ''switch_led'' \<in> set (map fst ps)"
    unfolding key_mem_iff [of _ decoded] f1 using last_value_None_iff [of "''switch_led''" ps] by simp
  have k2: "''brightness'' \<in> set (map fst decoded) \<longleftrightarrow> ''bright_value_v2'' \<in> set (map fst ps)"
    unfolding key_mem_iff [of _ decoded] f2 using last_value_None_iff [of "''bright_value_v2''" ps] by simp
  have k3: "''temp'' \<in> set (map fst decoded) \<longleftrightarrow> ''temp_value_v2'' \<in> set (map fst ps)"
    unfolding key_mem_iff [of _ decoded] f3 using last_value_None_iff [of "''temp_value_v2''" ps] by simp
  have k4: "''color'' \<in> set (map fst decoded) \<longleftrightarrow> ''colour_data_v2'' \<in> set (map fst ps)"
  proof (cases "last_value ''colour_data_v2'' ps")
    case None
    then show ?thesis
      unfolding key_mem_iff [of _ decoded] f4 using last_value_None_iff [of "''colour_data_v2''" ps] by simp
  next
    case (Some v)
    then have "(''colour_data_v2'', v) \<in> set ps" by (rule last_value_mem)
    then obtain x where "field_value L ''colour_data_v2'' v = Inr x"
      using status_forEach_parsed [OF run] by blast
    then have "JSON_parse L (to_string v) = Inr x" by (simp add: field_value_def)
    then show ?thesis
      unfolding key_mem_iff [of _ decoded] f4 using Some last_value_None_iff [of "''colour_data_v2''" ps] by simp
  qed
  have step: "decode_status L (status_pairs (ps @ [(code, w)])) =
           status_step L (status_pair code w) decoded"
    by (simp add: decode_status_def status_pairs_def status_forEach_append run split: sum.splits)
  have empty: "decode_status L (status_pairs []) = Inr []" by (simp add: decode_status_def status_pairs_def)
  have dev: "authenticatedCall L W creds ''GET'' (''/v1.0/devices/'' @ deviceId @ ''/status'') None None st = (Inr envelope, st1)
            \<and> get_own envelope ''result'' = status_pairs ps \<longrightarrow>
            getDeviceStatus L W creds deviceId st = (Inr decoded, st1)"
    using getDeviceStatus_decodes [of L W creds deviceId st envelope st1 "map (\<lambda>(c, v). status_pair c v) ps"] ok
    by (simp add: status_pairs_def)
  show ?thesis
    using f1 f2 f3 f4 k1 k2 k3 k4 step empty dev by (simp only: simp_thms)
qed

text \<open>
  C10, the theorem at work: the status endpoint returns two \<^verbatim>\<open>switch_led\<close> pairs,
  and \<^verbatim>\<open>getDeviceStatus\<close> returns the value of the later one.
\<close>

theorem decode_status_last_wins_witness:
  "fst (getDeviceStatus demo_lib
          (demo_world token_ok
             (json_response 200
                (JObj [(''result'', status_pairs [(''switch_led'', JBool True), (''work_mode'', JStr ''white''),
                                                  (''switch_led'', JBool False)]),
                       (''success'', JBool True)])))
          demo_creds ''d1'' st0)
     = Inr [(''onOff'', JBool False)]
   \<and> decode_status demo_lib (status_pairs
       [(''switch_led'', JBool True), (''work_mode'', JStr ''white''), (''switch_led'', JBool False)])
     = Inr [(''onOff'', JBool False)]
   \<and> map_of [(''onOff'', JBool False)] ''onOff''
       = last_value ''switch_led'' [(''switch_led'', JBool True), (''work_mode'', JStr ''white''), (''switch_led'', JBool False)]
   \<and> last_value ''switch_led'' [(''switch_led'', JBool True), (''work_mode'', JStr ''white''), (''switch_led'', JBool False)]
       = Some (JBool False)"
proof -
  let ?ps = "[(''switch_led'', JBool True), (''work_mode'', JStr ''white''), (''switch_led'', JBool False)]"
  let ?env = "JObj [(''result'', status_pairs ?ps), (''success'', JBool True)]"
  let ?W = "demo_world token_ok (json_response 200 ?env)"
  have run: "decode_status demo_lib (status_pairs ?ps) = Inr [(''onOff'', JBool False)]"
    by (simp add: decode_status_def status_pairs_def status_step_pair code_field_def field_value_def obj_set_def)
  note t = decode_status_last_wins [OF run]
  have m: "map_of [(''onOff'', JBool False)] ''onOff'' = last_value ''switch_led'' ?ps"
    by (rule conjunct1 [OF t])
  have su: "get_own ?env ''success'' = JBool True" by (simp add: get_own_def obj_get_def)
  have re: "get_own ?env ''result'' = status_pairs ?ps" by (simp add: get_own_def obj_get_def)
  obtain st1 where call: "authenticatedCall demo_lib ?W demo_creds ''GET'' (''/v1.0/devices/'' @ ''d1'' @ ''/status'') None None st0
      = (Inr ?env, st1)"
    using demo_status_call [OF su, of "''d1''"] by blast
  have "authenticatedCall demo_lib ?W demo_creds ''GET'' (''/v1.0/devices/'' @ ''d1'' @ ''/status'') None None st0 = (Inr ?env, st1)
        \<and> get_own ?env ''result'' = status_pairs ?ps \<longrightarrow>
        getDeviceStatus demo_lib ?W demo_creds ''d1'' st0 = (Inr [(''onOff'', JBool False)], st1)"
    by (rule conjunct2 [OF conjunct2 [OF conjunct2 [OF conjunct2 [OF conjunct2 [OF conjunct2 [OF conjunct2
          [OF conjunct2 [OF conjunct2 [OF conjunct2 [OF t]]]]]]]]]])
  then have g: "fst (getDeviceStatus demo_lib ?W demo_creds ''d1'' st0) = Inr [(''onOff'', JBool False)]"
    using call re by (simp only: simp_thms fst_conv)
  have l: "last_value ''switch_led'' ?ps = Some (JBool False)"
    by (simp add: last_value_def)
  show ?thesis using g run m l by (simp only: simp_thms)
qed

end
